theory Spec2Isabelle
  imports
    Main
    "HOL-Library.Finite_Map"
    "HOL-Library.List_Lexorder"
    "HOL-Library.Char_ord"
    "HOL-Library.Sublist"
begin

section \<open>The command \<open>timoni mod import crd\<close> (cmd/timoni/mod\_import\_crd.go)\<close>

text \<open>
  The file holds one function, \<open>runImportCrdCmd\<close>, which strings together calls
  into the standard library (\<open>path\<close>, \<open>os\<close>, \<open>io\<close>, \<open>sort\<close>, \<open>fmt\<close>) and into
  three collaborators (\<open>ssa.ReadObjects\<close>, \<open>yaml.Marshal\<close>, the engine's
  \<open>Importer.Generate\<close>).  The embedding below keeps that shape:

  \<^item> Go strings and byte slices are \<open>char list\<close>; a \<open>char\<close> is one byte and the order on
    strings is the byte-wise lexicographic one, as Go's \<open><\<close> on strings.
  \<^item> A Go \<open>error\<close> is a value of the datatype \<open>error\<close>; every \<open>return err\<close> of the
    source is an \<open>Inl\<close> branch of the model.
  \<^item> The collaborators are fields of a record that the run takes as a parameter.
  \<^item> The file system is an explicit state, threaded through the run together with a
    trace of every call that leaves the function.
\<close>

type_synonym bytes = string
type_synonym path = string

subsection \<open>Errors\<close>

text \<open>
  \<open>Errorf m\<close> is \<open>fmt.Errorf\<close> without a \<open>%w\<close> verb (a fresh error with message \<open>m\<close>);
  \<open>Wrapped p e\<close> is \<open>fmt.Errorf(p + "%w", e)\<close>: its message is \<open>p\<close> followed by the
  message of \<open>e\<close>, and \<open>errors.Unwrap\<close> gives \<open>e\<close> back;
  \<open>PathError op p m\<close> is the \<open>*fs.PathError\<close> of package \<open>os\<close>.
\<close>

datatype error =
    Errorf string
  | Wrapped string error
  | PathError string path string

fun Error :: "error \<Rightarrow> string" where
  "Error (Errorf m) = m"
| "Error (Wrapped p e) = p @ Error e"
| "Error (PathError opn p m) = opn @ '' '' @ p @ '': '' @ m"

fun Unwrap :: "error \<Rightarrow> error option" where
  "Unwrap (Wrapped p e) = Some e"
| "Unwrap e = None"

subsection \<open>Package \<open>path\<close>: \<open>Clean\<close> and \<open>Join\<close>\<close>

text \<open>
  \<open>path.Clean\<close> reads its argument left to right (\<open>rest\<close> is \<open>path[r:]\<close>) and writes
  into a buffer (\<open>out\<close>; the source's \<open>out.w\<close> is \<open>length out\<close>).  \<open>dotdot\<close> is the
  index up to which the buffer may not be popped.
\<close>

definition slash :: char where
  "slash = CHR ''/''"

definition dot :: char where
  "dot = CHR ''.''"

text \<open>
  The inner loop of the \<open>..\<close> case, after the first \<open>out.w--\<close>:
  \<open>for out.w > dotdot && out.index(out.w) != '/' { out.w-- }\<close>.
\<close>

fun backtrack :: "string \<Rightarrow> nat \<Rightarrow> nat \<Rightarrow> nat" where
  "backtrack out dotdot 0 = 0"
| "backtrack out dotdot (Suc w) =
     (if Suc w > dotdot \<and> out ! Suc w \<noteq> slash then backtrack out dotdot w else Suc w)"

function clean_loop :: "bool \<Rightarrow> string \<Rightarrow> string \<Rightarrow> nat \<Rightarrow> string" where
  "clean_loop rooted [] out dotdot = out"
| "clean_loop rooted (c # cs) out dotdot =
     (if c = slash then
        \<comment> \<open>empty path element\<close>
        clean_loop rooted cs out dotdot
      else if c = dot \<and> (cs = [] \<or> hd cs = slash) then
        \<comment> \<open>. element\<close>
        clean_loop rooted cs out dotdot
      else if c = dot \<and> hd cs = dot \<and> (tl cs = [] \<or> hd (tl cs) = slash) then
        \<comment> \<open>.. element: remove to last /\<close>
        (if length out > dotdot then
           clean_loop rooted (tl cs)
             (take (backtrack out dotdot (length out - 1)) out) dotdot
         else if \<not> rooted then
           (let out' = (if length out > 0 then out @ [slash] else out) @ [dot, dot]
            in clean_loop rooted (tl cs) out' (length out'))
         else clean_loop rooted (tl cs) out dotdot)
      else
        \<comment> \<open>real path element: add slash if needed, copy element\<close>
        clean_loop rooted (dropWhile (\<lambda>x. x \<noteq> slash) (c # cs))
          ((if (rooted \<and> length out \<noteq> 1) \<or> (\<not> rooted \<and> length out \<noteq> 0)
            then out @ [slash] else out) @ takeWhile (\<lambda>x. x \<noteq> slash) (c # cs))
          dotdot)"
  by pat_completeness auto
termination
proof (relation "measure (\<lambda>(rooted, rest, out, dotdot). length rest)")
  show "wf (measure (\<lambda>(rooted, rest, out, dotdot). length rest))"
    by simp
next
  fix rooted :: bool and c :: char and cs out :: string and dotdot :: nat
  assume "c \<noteq> slash"
  then have "length (dropWhile (\<lambda>x. x \<noteq> slash) (c # cs)) \<le> length cs"
    by (simp add: length_dropWhile_le)
  then show "((rooted, dropWhile (\<lambda>x. x \<noteq> slash) (c # cs),
        (if (rooted \<and> length out \<noteq> 1) \<or> (\<not> rooted \<and> length out \<noteq> 0)
            then out @ [slash] else out) @ takeWhile (\<lambda>x. x \<noteq> slash) (c # cs), dotdot),
       (rooted, c # cs, out, dotdot))
      \<in> measure (\<lambda>(rooted, rest, out, dotdot). length rest)"
    by simp
qed (auto simp: less_Suc_eq_le intro: le_trans [OF length_tl [THEN eq_refl]])

definition path_Clean :: "path \<Rightarrow> path" where
  "path_Clean p =
     (if p = [] then ''.''
      else
        (let rooted = (hd p = slash);
             out = clean_loop rooted (if rooted then tl p else p)
                     (if rooted then [slash] else []) (if rooted then 1 else 0)
         in if out = [] then ''.'' else out))"

text \<open>
  \<open>path.Join\<close>: empty elements before the first non-empty one are skipped, the rest is
  joined with slashes and cleaned; the result is empty when every element is.
\<close>

fun join_slash :: "string list \<Rightarrow> string" where
  "join_slash [] = []"
| "join_slash [e] = e"
| "join_slash (e # es) = e @ [slash] @ join_slash es"

definition path_Join :: "string list \<Rightarrow> path" where
  "path_Join elem =
     (let es = dropWhile (\<lambda>e. e = []) elem
      in if es = [] then [] else path_Clean (join_slash es))"

subsection \<open>The file system\<close>

text \<open>
  The state of the file system is a flat map from path names in \<open>path.Clean\<close> normal
  form to nodes.  Modelling assumptions, none of them from the repository: there are no
  symbolic links; a name denotes the node at its normal form (so a relative and an
  absolute name never alias); the working directory, the root and the chain of parents
  of the working directory (\<open>.\<close>, \<open>/\<close>, \<open>..\<close>, \<open>../..\<close>, ...) always are
  directories; \<open>Special\<close> stands for everything that is neither a directory nor a
  regular file (socket, device, named pipe), and writing to it fails.
  An open or a read of an existing file fails exactly where the world says so
  (\<open>open_fault\<close>, \<open>read_fault\<close>: permissions, I/O errors).
\<close>

datatype node = Dir | Regular bytes | Special

text \<open>What a \<open>FileInfo\<close> tells the command: \<open>IsDir()\<close> and \<open>Mode().IsRegular()\<close>.\<close>

datatype FileInfo = ModeDir | ModeRegular | ModeIrregular

fun info :: "node \<Rightarrow> FileInfo" where
  "info Dir = ModeDir"
| "info (Regular b) = ModeRegular"
| "info Special = ModeIrregular"

definition IsDir :: "FileInfo \<Rightarrow> bool" where
  "IsDir fi = (fi = ModeDir)"

definition IsRegular :: "FileInfo \<Rightarrow> bool" where
  "IsRegular fi = (fi = ModeRegular)"

fun dotdots :: "path \<Rightarrow> bool" where
  "dotdots [a, b] = (a = dot \<and> b = dot)"
| "dotdots (a # b # c # p) = (a = dot \<and> b = dot \<and> c = slash \<and> dotdots p)"
| "dotdots p = False"

definition implicit_dir :: "path \<Rightarrow> bool" where
  "implicit_dir q = (q = [dot] \<or> q = [slash] \<or> dotdots q)"

definition node_at :: "(path \<rightharpoonup> node) \<Rightarrow> path \<Rightarrow> node option" where
  "node_at ns q = (if implicit_dir q then Some Dir else ns q)"

definition lookup :: "(path \<rightharpoonup> node) \<Rightarrow> string \<Rightarrow> node option" where
  "lookup ns name = (if name = [] then None else node_at ns (path_Clean name))"

text \<open>The directory a name lives in, as \<open>path.Dir\<close> computes it.\<close>

definition path_Dir :: "path \<Rightarrow> path" where
  "path_Dir p = path_Clean (rev (dropWhile (\<lambda>c. c \<noteq> slash) (rev p)))"

text \<open>
  \<open>os.Mkdir\<close>, and \<open>os.MkdirAll\<close> as package \<open>os\<close> writes it: succeed at once on a
  directory, fail on any other node, otherwise make the parent (the name up to its last
  element, \<open>path[:j-1]\<close>, when \<open>j > 1\<close>) and then the directory itself; a failing
  \<open>Mkdir\<close> is forgiven when the directory is there after all.
\<close>

definition Mkdir :: "(path \<rightharpoonup> node) \<Rightarrow> string \<Rightarrow> error + (path \<rightharpoonup> node)" where
  "Mkdir ns name =
     (if name = [] then Inl (PathError ''mkdir'' name ''no such file or directory'')
      else
        (let q = path_Clean name in
         case node_at ns q of
           Some n \<Rightarrow> Inl (PathError ''mkdir'' name ''file exists'')
         | None \<Rightarrow>
             (case node_at ns (path_Dir q) of
                Some Dir \<Rightarrow> Inr (ns(q \<mapsto> Dir))
              | Some n \<Rightarrow> Inl (PathError ''mkdir'' name ''not a directory'')
              | None \<Rightarrow> Inl (PathError ''mkdir'' name ''no such file or directory''))))"

definition mkdir_parent :: "string \<Rightarrow> string option" where
  "mkdir_parent name =
     (let upto_i = rev (dropWhile (\<lambda>c. c = slash) (rev name));
          upto_j = rev (dropWhile (\<lambda>c. c \<noteq> slash) (rev upto_i))
      in if length upto_j > 1 then Some (butlast upto_j) else None)"

lemma mkdir_parent_shorter: "mkdir_parent name = Some parent \<Longrightarrow> length parent < length name"
proof -
  assume a: "mkdir_parent name = Some parent"
  let ?i = "rev (dropWhile (\<lambda>c. c = slash) (rev name))"
  let ?j = "rev (dropWhile (\<lambda>c. c \<noteq> slash) (rev ?i))"
  have "length ?j \<le> length ?i"
    using length_dropWhile_le [of "\<lambda>c. c \<noteq> slash" "rev ?i"] by simp
  moreover have "length ?i \<le> length name"
    using length_dropWhile_le [of "\<lambda>c. c = slash" "rev name"] by simp
  moreover from a have "parent = butlast ?j" and "length ?j > 1"
    by (auto simp: mkdir_parent_def Let_def split: if_splits)
  ultimately show ?thesis by simp
qed

function MkdirAll :: "(path \<rightharpoonup> node) \<Rightarrow> string \<Rightarrow> error + (path \<rightharpoonup> node)" where
  "MkdirAll ns name =
     (case lookup ns name of
        Some Dir \<Rightarrow> Inr ns
      | Some n \<Rightarrow> Inl (PathError ''mkdir'' name ''not a directory'')
      | None \<Rightarrow>
          (case (case mkdir_parent name of
                   Some parent \<Rightarrow> MkdirAll ns parent
                 | None \<Rightarrow> Inr ns) of
             Inl err \<Rightarrow> Inl err
           | Inr ns' \<Rightarrow>
               (case Mkdir ns' name of
                  Inr ns'' \<Rightarrow> Inr ns''
                | Inl err \<Rightarrow>
                    (if lookup ns' name = Some Dir then Inr ns' else Inl err))))"
  by pat_completeness auto
termination
  by (relation "measure (\<lambda>(ns, name). length name)") (auto dest: mkdir_parent_shorter)

text \<open>
  \<open>os.WriteFile\<close> opens with \<open>O_WRONLY|O_CREATE|O_TRUNC\<close> and writes: a regular
  file gets the new bytes in place of the old, a missing file is created in an existing
  directory.
\<close>

definition WriteFile :: "(path \<rightharpoonup> node) \<Rightarrow> string \<Rightarrow> bytes \<Rightarrow> error + (path \<rightharpoonup> node)" where
  "WriteFile ns name data =
     (if name = [] then Inl (PathError ''open'' name ''no such file or directory'')
      else
        (let q = path_Clean name in
         case node_at ns q of
           Some Dir \<Rightarrow> Inl (PathError ''open'' name ''is a directory'')
         | Some Special \<Rightarrow> Inl (PathError ''open'' name ''no such device or address'')
         | Some (Regular old) \<Rightarrow> Inr (ns(q \<mapsto> Regular data))
         | None \<Rightarrow>
             (case node_at ns (path_Dir q) of
                Some Dir \<Rightarrow> Inr (ns(q \<mapsto> Regular data))
              | Some n \<Rightarrow> Inl (PathError ''open'' name ''not a directory'')
              | None \<Rightarrow> Inl (PathError ''open'' name ''no such file or directory''))))"

subsection \<open>The world: file system, faults and the trace of calls\<close>

text \<open>
  Every call that leaves \<open>runImportCrdCmd\<close> appends an event to the trace, so that
  the order of the calls, and which calls were never made, can be stated.  \<open>'o\<close> is the
  type of a decoded Kubernetes object (\<open>*unstructured.Unstructured\<close>).
\<close>

datatype 'o event =
    EvStat string
  | EvOpen string
  | EvReadAll string
  | EvReadObjects bytes
  | EvMarshal 'o
  | EvGenerate string bytes
  | EvLogInfo string
  | EvMkdirAll string
  | EvWriteFile string bytes

record 'o world =
  nodes :: "path \<rightharpoonup> node"
  open_fault :: "path \<rightharpoonup> string"
  read_fault :: "path \<rightharpoonup> string"
  trace :: "'o event list"

definition emit :: "'o event \<Rightarrow> 'o world \<Rightarrow> 'o world" where
  "emit e w = w\<lparr>trace := trace w @ [e]\<rparr>"

definition os_Stat :: "string \<Rightarrow> 'o world \<Rightarrow> (error + FileInfo) \<times> 'o world" where
  "os_Stat name w =
     ((case lookup (nodes w) name of
         None \<Rightarrow> Inl (PathError ''stat'' name ''no such file or directory'')
       | Some n \<Rightarrow> Inr (info n)),
      emit (EvStat name) w)"

text \<open>An \<open>*os.File\<close> open for reading: the name it was opened under.\<close>

datatype File = File string

definition os_Open :: "string \<Rightarrow> 'o world \<Rightarrow> (error + File) \<times> 'o world" where
  "os_Open name w =
     ((case lookup (nodes w) name of
         None \<Rightarrow> Inl (PathError ''open'' name ''no such file or directory'')
       | Some n \<Rightarrow>
           (case open_fault w (path_Clean name) of
              Some m \<Rightarrow> Inl (PathError ''open'' name m)
            | None \<Rightarrow> Inr (File name))),
      emit (EvOpen name) w)"

fun io_ReadAll :: "File \<Rightarrow> 'o world \<Rightarrow> (error + bytes) \<times> 'o world" where
  "io_ReadAll (File name) w =
     ((case read_fault w (path_Clean name) of
         Some m \<Rightarrow> Inl (PathError ''read'' name m)
       | None \<Rightarrow>
           (case lookup (nodes w) name of
              Some (Regular b) \<Rightarrow> Inr b
            | Some Dir \<Rightarrow> Inl (PathError ''read'' name ''is a directory'')
            | Some Special \<Rightarrow> Inl (PathError ''read'' name ''input/output error'')
            | None \<Rightarrow> Inl (PathError ''read'' name ''file already closed''))),
      emit (EvReadAll name) w)"

definition os_MkdirAll :: "string \<Rightarrow> 'o world \<Rightarrow> (error + unit) \<times> 'o world" where
  "os_MkdirAll name w =
     (case MkdirAll (nodes w) name of
        Inl err \<Rightarrow> (Inl err, emit (EvMkdirAll name) w)
      | Inr ns \<Rightarrow> (Inr (), emit (EvMkdirAll name) (w\<lparr>nodes := ns\<rparr>)))"

definition os_WriteFile :: "string \<Rightarrow> bytes \<Rightarrow> 'o world \<Rightarrow> (error + unit) \<times> 'o world" where
  "os_WriteFile name data w =
     (case WriteFile (nodes w) name data of
        Inl err \<Rightarrow> (Inl err, emit (EvWriteFile name data) w)
      | Inr ns \<Rightarrow> (Inr (), emit (EvWriteFile name data) (w\<lparr>nodes := ns\<rparr>)))"

subsection \<open>The collaborators\<close>

text \<open>
  None of these is in the file; the run takes them as parameters.
  \<open>ssa_ReadObjects\<close> decodes multi-document YAML, \<open>GetKind\<close> reads an object's kind,
  \<open>yaml_Marshal\<close> encodes one object, \<open>Generate hdr data\<close> is
  \<open>engine.NewImporter(cuectx, hdr).Generate(data)\<close> (a Go map with string keys: a
  finite map), and \<open>colorizeSubject\<close> decorates a key for the log.
\<close>

record 'o collaborators =
  ssa_ReadObjects :: "bytes \<Rightarrow> error + 'o list"
  GetKind :: "'o \<Rightarrow> string"
  yaml_Marshal :: "'o \<Rightarrow> error + bytes"
  Generate :: "string \<Rightarrow> bytes \<Rightarrow> error + (string, bytes) fmap"
  colorizeSubject :: "string \<Rightarrow> string"

definition call_ReadObjects ::
  "'o collaborators \<Rightarrow> bytes \<Rightarrow> 'o world \<Rightarrow> (error + 'o list) \<times> 'o world" where
  "call_ReadObjects env data w = (ssa_ReadObjects env data, emit (EvReadObjects data) w)"

definition call_Marshal ::
  "'o collaborators \<Rightarrow> 'o \<Rightarrow> 'o world \<Rightarrow> (error + bytes) \<times> 'o world" where
  "call_Marshal env obj w = (yaml_Marshal env obj, emit (EvMarshal obj) w)"

definition call_Generate ::
  "'o collaborators \<Rightarrow> string \<Rightarrow> bytes \<Rightarrow> 'o world
     \<Rightarrow> (error + (string, bytes) fmap) \<times> 'o world" where
  "call_Generate env hdr data w = (Generate env hdr data, emit (EvGenerate hdr data) w)"

definition log_Info :: "string \<Rightarrow> 'o world \<Rightarrow> 'o world" where
  "log_Info msg w = emit (EvLogInfo msg) w"

subsection \<open>The command, its flags and the header constant\<close>

definition newline :: char where
  "newline = CHR 0x0A"

record Command =
  Use :: string
  Short :: string
  Example :: string

definition importCrdCmd :: Command where
  "importCrdCmd =
     \<lparr>Use = ''crd [MODULE PATH]'',
      Short = ''Generate CUE definitions from Kubernetes CRDs'',
      Example = ''  # generate CUE definitions from a local YAML file'' @ [newline] @
                ''  timoni mod import crd -f crds.yaml'' @ [newline]\<rparr>"

record importCrdFlags =
  modRoot :: string
  crdFile :: string

text \<open>
  The package variable \<open>importCrdArgs\<close> when \<open>runImportCrdCmd\<close> is entered: \<open>init\<close>
  binds \<open>--file/-f\<close> (default empty) to \<open>crdFile\<close>, and nothing binds \<open>modRoot\<close>, which
  keeps the zero value of a Go string.
\<close>

definition importCrdArgs :: "string \<Rightarrow> importCrdFlags" where
  "importCrdArgs file = \<lparr>modRoot = [], crdFile = file\<rparr>"

definition header :: string where
  "header =
     ''// Code generated by timoni. DO NOT EDIT.'' @ [newline] @
     [newline] @
     ''//timoni:generate timoni import crd -f ''"

subsection \<open>\<open>runImportCrdCmd\<close>\<close>

text \<open>Lines 64 to 66: the first positional argument, when there is one, is the module root.\<close>

definition take_args :: "importCrdFlags \<Rightarrow> string list \<Rightarrow> importCrdFlags" where
  "take_args flags args = (if length args > 0 then flags\<lparr>modRoot := args ! 0\<rparr> else flags)"

text \<open>Lines 72 to 75 (\<open>Make sure we're importing into a CUE module\<close>), after line 72.\<close>

definition check_cue_mod ::
  "importCrdFlags \<Rightarrow> path \<Rightarrow> 'o world \<Rightarrow> (error + unit) \<times> 'o world" where
  "check_cue_mod flags cueModDir w =
     (case os_Stat cueModDir w of
        (Inl err, w') \<Rightarrow>
          (Inl (Errorf (''cue.mod not found in the module path '' @ modRoot flags)), w')
      | (Inr fs, w') \<Rightarrow>
          (if \<not> IsDir fs
           then (Inl (Errorf (''cue.mod not found in the module path '' @ modRoot flags)), w')
           else (Inr (), w')))"

text \<open>Lines 77 to 91 (\<open>Load the YAML file into memory\<close>).\<close>

definition load_crd_file :: "importCrdFlags \<Rightarrow> 'o world \<Rightarrow> (error + bytes) \<times> 'o world" where
  "load_crd_file flags w =
     (case os_Stat (crdFile flags) w of
        (Inl err, w1) \<Rightarrow> (Inl (Errorf (''path not found: '' @ crdFile flags)), w1)
      | (Inr fs, w1) \<Rightarrow>
          (if \<not> IsRegular fs then (Inl (Errorf (''path not found: '' @ crdFile flags)), w1)
           else
             (case os_Open (crdFile flags) w1 of
                (Inl err, w2) \<Rightarrow> (Inl err, w2)
              | (Inr f, w2) \<Rightarrow>
                  (case io_ReadAll f w2 of
                     (Inl err, w3) \<Rightarrow> (Inl err, w3)
                   | (Inr crdData, w3) \<Rightarrow> (Inr crdData, w3)))))"

text \<open>
  Lines 99 to 108, the loop over the decoded objects.  \<open>builder\<close> is the content of the
  \<open>strings.Builder\<close>; the separator is written before the object is marshalled.
\<close>

definition separator :: string where
  "separator = ''---'' @ [newline]"

definition is_crd :: "'o collaborators \<Rightarrow> 'o \<Rightarrow> bool" where
  "is_crd env obj = (GetKind env obj = ''CustomResourceDefinition'')"

fun extract_loop ::
  "'o collaborators \<Rightarrow> 'o list \<Rightarrow> string \<Rightarrow> 'o world \<Rightarrow> (error + string) \<times> 'o world" where
  "extract_loop env [] builder w = (Inr builder, w)"
| "extract_loop env (obj # objects) builder w =
     (if is_crd env obj then
        (case call_Marshal env obj w of
           (Inl err, w') \<Rightarrow> (Inl (Wrapped ''marshaling CRD failed: '' err), w')
         | (Inr data, w') \<Rightarrow> extract_loop env objects ((builder @ separator) @ data) w')
      else extract_loop env objects builder w)"

text \<open>Lines 93 to 108 (\<open>Extract the Kubernetes CRDs from the multi-doc YAML\<close>).\<close>

definition extract_crds ::
  "'o collaborators \<Rightarrow> bytes \<Rightarrow> 'o world \<Rightarrow> (error + string) \<times> 'o world" where
  "extract_crds env crdData w =
     (case call_ReadObjects env crdData w of
        (Inl err, w') \<Rightarrow> (Inl (Wrapped ''parsing CRDs failed: '' err), w')
      | (Inr objects, w') \<Rightarrow> extract_loop env objects [] w')"

text \<open>Lines 110 to 115 (\<open>Generate the CUE definitions from the given CRD YAML\<close>).\<close>

definition generate_crds ::
  "'o collaborators \<Rightarrow> importCrdFlags \<Rightarrow> string \<Rightarrow> 'o world
     \<Rightarrow> (error + (string, bytes) fmap) \<times> 'o world" where
  "generate_crds env flags builder w =
     (case call_Generate env (header @ crdFile flags) builder w of
        (Inl err, w') \<Rightarrow> (Inl err, w')
      | (Inr crds, w') \<Rightarrow> (Inr crds, w'))"

text \<open>
  Lines 117 to 122: the keys of the map, in whatever order \<open>range\<close> yields them, sorted
  by \<open>sort.Strings\<close>; the outcome is the one ascending list of the key set, whatever
  that order was (lemma \<open>sort_any_order\<close>).
\<close>

definition sorted_keys :: "(string, bytes) fmap \<Rightarrow> string list" where
  "sorted_keys crds = sorted_list_of_fset (fmdom crds)"

text \<open>\<open>crds[k]\<close>: the value under the key, the zero value (no bytes) without one.\<close>

definition index_crds :: "(string, bytes) fmap \<Rightarrow> string \<Rightarrow> bytes" where
  "index_crds crds k = (case fmlookup crds k of Some b \<Rightarrow> b | None \<Rightarrow> [])"

definition dstDir :: "path \<Rightarrow> string \<Rightarrow> path" where
  "dstDir cueModDir k = path_Join [cueModDir, ''gen'', k]"

definition dstFile :: "path \<Rightarrow> string \<Rightarrow> path" where
  "dstFile cueModDir k = path_Join [dstDir cueModDir k, ''types_gen.cue'']"

text \<open>Lines 125 to 136 (\<open>Write the definitions to the module's 'cue.mod/gen' dir\<close>).\<close>

fun write_loop ::
  "'o collaborators \<Rightarrow> path \<Rightarrow> (string, bytes) fmap \<Rightarrow> string list \<Rightarrow> 'o world
     \<Rightarrow> (error + unit) \<times> 'o world" where
  "write_loop env cueModDir crds [] w = (Inr (), w)"
| "write_loop env cueModDir crds (k # keys) w =
     (let w0 = log_Info (''generating: '' @ colorizeSubject env k) w
      in case os_MkdirAll (dstDir cueModDir k) w0 of
           (Inl err, w1) \<Rightarrow> (Inl err, w1)
         | (Inr u, w1) \<Rightarrow>
             (case os_WriteFile (dstFile cueModDir k) (index_crds crds k) w1 of
                (Inl err, w2) \<Rightarrow> (Inl err, w2)
              | (Inr u', w2) \<Rightarrow> write_loop env cueModDir crds keys w2))"

text \<open>Lines 77 to 138: everything after the module check.\<close>

definition import_crds ::
  "'o collaborators \<Rightarrow> importCrdFlags \<Rightarrow> path \<Rightarrow> 'o world \<Rightarrow> (error + unit) \<times> 'o world" where
  "import_crds env flags cueModDir w =
     (case load_crd_file flags w of
        (Inl err, w1) \<Rightarrow> (Inl err, w1)
      | (Inr crdData, w1) \<Rightarrow>
          (case extract_crds env crdData w1 of
             (Inl err, w2) \<Rightarrow> (Inl err, w2)
           | (Inr builder, w2) \<Rightarrow>
               (case generate_crds env flags builder w2 of
                  (Inl err, w3) \<Rightarrow> (Inl err, w3)
                | (Inr crds, w3) \<Rightarrow>
                    write_loop env cueModDir crds (sorted_keys crds) w3)))"

text \<open>
  The whole function.  \<open>flags\<close> is the package variable \<open>importCrdArgs\<close> on entry and
  \<open>args\<close> the positional arguments.  The logger and the CUE context of lines 68 and 69
  are obtained without a call that can fail; the context only travels to the generator,
  which is a parameter here.
\<close>

definition runImportCrdCmd ::
  "'o collaborators \<Rightarrow> importCrdFlags \<Rightarrow> string list \<Rightarrow> 'o world
     \<Rightarrow> (error + unit) \<times> 'o world" where
  "runImportCrdCmd env flags args w =
     (let flags' = take_args flags args;
          cueModDir = path_Join [modRoot flags', ''cue.mod'']
      in case check_cue_mod flags' cueModDir w of
           (Inl err, w') \<Rightarrow> (Inl err, w')
         | (Inr u, w') \<Rightarrow> import_crds env flags' cueModDir w')"

section \<open>Vocabulary of the statements\<close>

text \<open>
  \<open>emits es\<close> appends several events at once.  \<open>encoded env obj\<close> is the YAML that
  \<open>yaml.Marshal\<close> returns for an object (empty where it fails), and \<open>crd_documents\<close>
  lists, in input order, the separator followed by the encoding for every object that
  passes the kind test.  \<open>module_ok\<close> says that the module root holds a \<open>cue.mod\<close>
  directory, \<open>source_is\<close> that the source path is a regular file with the given bytes
  which opens and reads without a fault, and \<open>load_events\<close> are the four calls that the
  command makes up to the end of the read.
\<close>

definition emits :: "'o event list \<Rightarrow> 'o world \<Rightarrow> 'o world" where
  "emits es w = w\<lparr>trace := trace w @ es\<rparr>"

definition encoded :: "'o collaborators \<Rightarrow> 'o \<Rightarrow> bytes" where
  "encoded env obj = (case yaml_Marshal env obj of Inr data \<Rightarrow> data | Inl err \<Rightarrow> [])"

definition crd_documents :: "'o collaborators \<Rightarrow> 'o list \<Rightarrow> bytes list" where
  "crd_documents env objects = map (\<lambda>obj. separator @ encoded env obj) (filter (is_crd env) objects)"

definition module_ok :: "importCrdFlags \<Rightarrow> 'o world \<Rightarrow> bool" where
  "module_ok flags w = (lookup (nodes w) (path_Join [modRoot flags, ''cue.mod'']) = Some Dir)"

definition source_is :: "importCrdFlags \<Rightarrow> 'o world \<Rightarrow> bytes \<Rightarrow> bool" where
  "source_is flags w data =
     (lookup (nodes w) (crdFile flags) = Some (Regular data) \<and>
      open_fault w (path_Clean (crdFile flags)) = None \<and>
      read_fault w (path_Clean (crdFile flags)) = None)"

definition load_events :: "importCrdFlags \<Rightarrow> 'o event list" where
  "load_events flags =
     [EvStat (path_Join [modRoot flags, ''cue.mod'']), EvStat (crdFile flags),
      EvOpen (crdFile flags), EvReadAll (crdFile flags)]"

text \<open>
  For the writer: \<open>extends\<close> relates a file system to one that has at most gained
  directories, \<open>evolves\<close> to one in which every directory still is a directory and every
  regular file still is a regular file; \<open>target\<close> is the node a key's file name
  denotes, \<open>written\<close> maps every target to the bytes of the last key that targets
  it, \<open>write_events\<close> are the three calls the loop makes for a key, and a file system
  is \<open>settled\<close> for a list of keys when every key's directory and file are there.
\<close>

definition extends :: "(path \<rightharpoonup> node) \<Rightarrow> (path \<rightharpoonup> node) \<Rightarrow> bool" where
  "extends ns ns' = (\<forall>q. ns' q = ns q \<or> (ns q = None \<and> ns' q = Some Dir))"

definition target :: "path \<Rightarrow> string \<Rightarrow> path" where
  "target cueModDir k = path_Clean (dstFile cueModDir k)"

fun written :: "path \<Rightarrow> (string, bytes) fmap \<Rightarrow> string list \<Rightarrow> (path \<rightharpoonup> bytes)" where
  "written cueModDir crds [] = Map.empty"
| "written cueModDir crds (k # keys) =
     [target cueModDir k \<mapsto> index_crds crds k] ++ written cueModDir crds keys"

definition write_events ::
  "'o collaborators \<Rightarrow> path \<Rightarrow> (string, bytes) fmap \<Rightarrow> string \<Rightarrow> 'o event list" where
  "write_events env cueModDir crds k =
     [EvLogInfo (''generating: '' @ colorizeSubject env k),
      EvMkdirAll (dstDir cueModDir k),
      EvWriteFile (dstFile cueModDir k) (index_crds crds k)]"

definition evolves :: "(path \<rightharpoonup> node) \<Rightarrow> (path \<rightharpoonup> node) \<Rightarrow> bool" where
  "evolves ns ns' =
     (\<forall>q. (ns q = Some Dir \<longrightarrow> ns' q = Some Dir) \<and>
          (\<forall>b. ns q = Some (Regular b) \<longrightarrow> (\<exists>b'. ns' q = Some (Regular b'))))"

definition settled :: "path \<Rightarrow> string list \<Rightarrow> (path \<rightharpoonup> node) \<Rightarrow> bool" where
  "settled cm keys ns =
     (\<forall>k\<in>set keys. lookup ns (dstDir cm k) = Some Dir \<and>
                    (\<exists>b. lookup ns (dstFile cm k) = Some (Regular b)))"

text \<open>
  The extraction does not look at the world: \<open>extract_result\<close> is what it returns
  and \<open>extract_events\<close> are the calls it makes, whatever the world (lemma
  \<open>extract_crds_pure\<close>).
\<close>

definition no_world :: "'o world" where
  "no_world = \<lparr>nodes = Map.empty, open_fault = Map.empty, read_fault = Map.empty, trace = []\<rparr>"

definition extract_result :: "'o collaborators \<Rightarrow> bytes \<Rightarrow> error + string" where
  "extract_result env crdData = fst (extract_crds env crdData no_world)"

definition extract_events :: "'o collaborators \<Rightarrow> bytes \<Rightarrow> 'o event list" where
  "extract_events env crdData = trace (snd (extract_crds env crdData no_world))"

text \<open>
  For the header: \<open>split_lines\<close> cuts a text at its newlines, \<open>recorded_command\<close> is
  what follows the marker \<open>//timoni:generate\<close> on the last line of the header that the
  command builds for a source file, and \<open>example_command\<close> is the invocation that the
  command's own \<open>Example\<close> text shows (its second line, without the indentation).
\<close>

definition split_lines :: "string \<Rightarrow> string list" where
  "split_lines s =
     foldr (\<lambda>c acc. if c = newline then [] # acc else (c # hd acc) # tl acc) s [[]]"

definition recorded_command :: "string \<Rightarrow> string" where
  "recorded_command file =
     drop (length ''//timoni:generate '') (last (split_lines (header @ file)))"

definition example_command :: string where
  "example_command =
     dropWhile (\<lambda>c. c = CHR '' '') (split_lines (Example importCrdCmd) ! 1)"

text \<open>
  A file system is \<open>tree_shaped\<close> when every node sits in a directory.
\<close>

definition tree_shaped :: "(path \<rightharpoonup> node) \<Rightarrow> bool" where
  "tree_shaped ns = (\<forall>q. ns q \<noteq> None \<longrightarrow> node_at ns (path_Dir q) = Some Dir)"

section \<open>A sample world\<close>

text \<open>
  A decoder that knows five inputs, an encoder that fails on one object, a generator
  that fails on one definition, and a file system with two module roots (\<open>m\<close> and the
  working directory), a third module root in which a file stands where the directory
  \<open>gen\<close> should be, a directory without a \<open>cue.mod\<close>, and a handful of source files,
  one of which cannot be opened and one of which cannot be read.  Under \<open>m\<close> an
  earlier run has left a file for one of the keys.
\<close>

definition demo_decode :: "bytes \<Rightarrow> error + (string \<times> string) list" where
  "demo_decode data =
     (if data = ''widgets, gadgets and a config map'' then
        Inr [(''ConfigMap'', ''settings''),
             (''CustomResourceDefinition'', ''widgets.example.com''),
             (''CustomResourceDefinition'', ''gadgets.example.com'')]
      else if data = ''two definitions'' then
        Inr [(''CustomResourceDefinition'', ''widgets.example.com''),
             (''CustomResourceDefinition'', ''gadgets.example.com'')]
      else if data = ''one definition that does not encode'' then
        Inr [(''CustomResourceDefinition'', ''widgets.example.com''),
             (''CustomResourceDefinition'', ''cyclic''),
             (''CustomResourceDefinition'', ''gadgets.example.com'')]
      else if data = ''no definitions'' then
        Inr [(''ConfigMap'', ''settings''), (''customresourcedefinition'', ''lowercase'')]
      else if data = ''one definition that does not translate'' then
        Inr [(''CustomResourceDefinition'', ''odd.example.com'')]
      else Inl (Errorf ''yaml: did not find expected node content''))"

definition demo_crds :: "string \<Rightarrow> (string, bytes) fmap" where
  "demo_crds hdr =
     fmap_of_list
       [(''example.com/widget/v1'', hdr @ [newline] @ ''#Widget: {}''),
        (''example.com/gadget/v1'', hdr @ [newline] @ ''#Gadget: {}'')]"

definition demo_env :: "(string \<times> string) collaborators" where
  "demo_env =
     \<lparr>ssa_ReadObjects = demo_decode,
      GetKind = fst,
      yaml_Marshal = (\<lambda>obj. if snd obj = ''cyclic'' then Inl (Errorf ''json: unsupported value'')
                              else Inr (''name: '' @ snd obj @ [newline])),
      Generate = (\<lambda>hdr data.
         if data = [] then Inr fmempty
         else if data = separator @ ''name: odd.example.com'' @ [newline]
           then Inl (Errorf ''schema of odd.example.com has no type'')
         else Inr (demo_crds hdr)),
      colorizeSubject = (\<lambda>k. k)\<rparr>"

definition demo_world :: "(string \<times> string) world" where
  "demo_world =
     \<lparr>nodes = [''cue.mod'' \<mapsto> Dir,
               ''m'' \<mapsto> Dir,
               ''m/cue.mod'' \<mapsto> Dir,
               ''m/cue.mod/gen'' \<mapsto> Dir,
               ''m/cue.mod/gen/example.com'' \<mapsto> Dir,
               ''m/cue.mod/gen/example.com/widget'' \<mapsto> Dir,
               ''m/cue.mod/gen/example.com/widget/v1'' \<mapsto> Dir,
               ''m/cue.mod/gen/example.com/widget/v1/types_gen.cue'' \<mapsto> Regular ''stale'',
               ''plain'' \<mapsto> Dir,
               ''blocked'' \<mapsto> Dir,
               ''blocked/cue.mod'' \<mapsto> Dir,
               ''blocked/cue.mod/gen'' \<mapsto> Regular ''in the way'',
               ''crds.yaml'' \<mapsto> Regular ''widgets, gadgets and a config map'',
               ''two.yaml'' \<mapsto> Regular ''two definitions'',
               ''cyclic.yaml'' \<mapsto> Regular ''one definition that does not encode'',
               ''rbac.yaml'' \<mapsto> Regular ''no definitions'',
               ''odd.yaml'' \<mapsto> Regular ''one definition that does not translate'',
               ''torn.yaml'' \<mapsto> Regular ''}{'',
               ''locked.yaml'' \<mapsto> Regular ''two definitions'',
               ''flaky.yaml'' \<mapsto> Regular ''two definitions''],
      open_fault = [''locked.yaml'' \<mapsto> ''permission denied''],
      read_fault = [''flaky.yaml'' \<mapsto> ''input/output error''],
      trace = []\<rparr>"

section \<open>Lemmas about the stages\<close>

lemma emits_simps [simp]:
  "nodes (emits es w) = nodes w"
  "open_fault (emits es w) = open_fault w"
  "read_fault (emits es w) = read_fault w"
  "trace (emits es w) = trace w @ es"
  by (simp_all add: emits_def)

lemma emit_emits: "emit e w = emits [e] w"
  by (simp add: emit_def emits_def)

lemma emits_emits [simp]: "emits es (emits ds w) = emits (ds @ es) w"
  by (simp add: emits_def)

lemma emits_Nil [simp]: "emits [] w = w"
  by (simp add: emits_def)

lemma extract_loop_ok:
  "\<forall>obj\<in>set objects. is_crd env obj \<longrightarrow> (\<exists>d. yaml_Marshal env obj = Inr d) \<Longrightarrow>
   extract_loop env objects b w =
     (Inr (b @ concat (crd_documents env objects)),
      emits (map EvMarshal (filter (is_crd env) objects)) w)"
proof (induction objects arbitrary: b w)
  case Nil
  then show ?case by (simp add: crd_documents_def)
next
  case (Cons obj objects)
  show ?case
  proof (cases "is_crd env obj")
    case True
    with Cons.prems obtain d where d: "yaml_Marshal env obj = Inr d" by auto
    from Cons.prems have "\<forall>x\<in>set objects. is_crd env x \<longrightarrow> (\<exists>d. yaml_Marshal env x = Inr d)"
      by simp
    from Cons.IH [OF this] True d show ?thesis
      by (simp add: call_Marshal_def crd_documents_def encoded_def emit_emits)
  next
    case False
    from Cons.prems have "\<forall>x\<in>set objects. is_crd env x \<longrightarrow> (\<exists>d. yaml_Marshal env x = Inr d)"
      by simp
    from Cons.IH [OF this] False show ?thesis
      by (simp add: crd_documents_def)
  qed
qed

lemma extract_loop_append:
  "extract_loop env (xs @ ys) b w =
     (case extract_loop env xs b w of
        (Inl err, w') \<Rightarrow> (Inl err, w')
      | (Inr b', w') \<Rightarrow> extract_loop env ys b' w')"
  by (induction xs arbitrary: b w) (auto split: prod.splits sum.splits)

lemma extract_loop_fails:
  assumes "\<forall>x\<in>set pre. is_crd env x \<longrightarrow> (\<exists>d. yaml_Marshal env x = Inr d)"
    and "is_crd env obj" and "yaml_Marshal env obj = Inl err"
  shows "extract_loop env (pre @ obj # post) b w =
     (Inl (Wrapped ''marshaling CRD failed: '' err),
      emits (map EvMarshal (filter (is_crd env) pre) @ [EvMarshal obj]) w)"
  using assms
  by (simp add: extract_loop_append extract_loop_ok call_Marshal_def emit_emits)

lemma load_ok:
  assumes "module_ok flags w" and "source_is flags w data"
  shows "check_cue_mod flags (path_Join [modRoot flags, ''cue.mod'']) w =
           (Inr (), emits [EvStat (path_Join [modRoot flags, ''cue.mod''])] w)"
    and "load_crd_file flags (emits [EvStat (path_Join [modRoot flags, ''cue.mod''])] w) =
           (Inr data, emits (load_events flags) w)"
  using assms
  by (simp_all add: module_ok_def source_is_def check_cue_mod_def load_crd_file_def os_Stat_def
      os_Open_def IsDir_def IsRegular_def emit_emits load_events_def)

lemma run_loaded:
  assumes "module_ok (take_args flags args) w" and "source_is (take_args flags args) w data"
  shows "runImportCrdCmd env flags args w =
     (case extract_crds env data (emits (load_events (take_args flags args)) w) of
        (Inl err, w2) \<Rightarrow> (Inl err, w2)
      | (Inr builder, w2) \<Rightarrow>
          (case generate_crds env (take_args flags args) builder w2 of
             (Inl err, w3) \<Rightarrow> (Inl err, w3)
           | (Inr crds, w3) \<Rightarrow>
               write_loop env (path_Join [modRoot (take_args flags args), ''cue.mod'']) crds
                 (sorted_keys crds) w3))"
  using load_ok [OF assms]
  by (simp add: runImportCrdCmd_def Let_def import_crds_def)

section \<open>The extraction of the definitions\<close>

text \<open>
  Claim C1.  When the decoder returns a sequence of objects and every object of kind
  \<open>CustomResourceDefinition\<close> re-encodes, the extraction returns the buffer that is
  the concatenation, in input order, of the separator line \<open>---\<close> followed by the
  encoding, over exactly the objects whose kind equals \<open>CustomResourceDefinition\<close>;
  objects of another kind add nothing.  When every object is of that kind there are as
  many documents in the buffer as objects in the input, in the same order.
\<close>


theorem crd_filter_buffer:
  assumes "ssa_ReadObjects env crdData = Inr objects"
    and "\<forall>obj\<in>set objects. is_crd env obj \<longrightarrow> (\<exists>d. yaml_Marshal env obj = Inr d)"
  shows "fst (extract_crds env crdData w) = Inr (concat (crd_documents env objects)) \<and>
         crd_documents env objects =
           map (\<lambda>obj. (''---'' @ [newline]) @ encoded env obj)
             (filter (\<lambda>obj. GetKind env obj = ''CustomResourceDefinition'') objects) \<and>
         ((\<forall>obj\<in>set objects. GetKind env obj = ''CustomResourceDefinition'') \<longrightarrow>
            length (crd_documents env objects) = length objects \<and>
            crd_documents env objects = map (\<lambda>obj. (''---'' @ [newline]) @ encoded env obj) objects)"
proof -
  have "fst (extract_crds env crdData w) = Inr (concat (crd_documents env objects))"
    using assms by (simp add: extract_crds_def call_ReadObjects_def extract_loop_ok)
  moreover have "crd_documents env objects =
      map (\<lambda>obj. (''---'' @ [newline]) @ encoded env obj)
        (filter (\<lambda>obj. GetKind env obj = ''CustomResourceDefinition'') objects)"
    by (simp add: crd_documents_def separator_def is_crd_def [abs_def])
  moreover have "filter (\<lambda>obj. GetKind env obj = ''CustomResourceDefinition'') objects = objects"
    if "\<forall>obj\<in>set objects. GetKind env obj = ''CustomResourceDefinition''"
    using that by (simp add: filter_id_conv)
  ultimately show ?thesis by simp
qed

theorem crd_filter_buffer_witness:
  "fst (extract_crds demo_env ''widgets, gadgets and a config map'' demo_world) =
     Inr (''---'' @ [newline] @ ''name: widgets.example.com'' @ [newline] @
          ''---'' @ [newline] @ ''name: gadgets.example.com'' @ [newline]) \<and>
   fst (extract_crds demo_env ''two definitions'' demo_world) =
     Inr (''---'' @ [newline] @ ''name: widgets.example.com'' @ [newline] @
          ''---'' @ [newline] @ ''name: gadgets.example.com'' @ [newline]) \<and>
   length (crd_documents demo_env
     [(''CustomResourceDefinition'', ''widgets.example.com''),
      (''CustomResourceDefinition'', ''gadgets.example.com'')]) = 2"
proof -
  have a: "ssa_ReadObjects demo_env ''widgets, gadgets and a config map'' =
      Inr [(''ConfigMap'', ''settings''),
           (''CustomResourceDefinition'', ''widgets.example.com''),
           (''CustomResourceDefinition'', ''gadgets.example.com'')]"
    by (simp add: demo_env_def demo_decode_def)
  have b: "ssa_ReadObjects demo_env ''two definitions'' =
      Inr [(''CustomResourceDefinition'', ''widgets.example.com''),
           (''CustomResourceDefinition'', ''gadgets.example.com'')]"
    by (simp add: demo_env_def demo_decode_def)
  have m: "\<exists>d. yaml_Marshal demo_env (k, n) = Inr d" if "n \<noteq> ''cyclic''" for k n
    using that by (simp add: demo_env_def)
  have k: "GetKind demo_env (k, n) = k" for k n
    by (simp add: demo_env_def)
  from crd_filter_buffer [OF a, of demo_world] crd_filter_buffer [OF b, of demo_world]
  show ?thesis
    by (simp add: m k crd_documents_def is_crd_def encoded_def demo_env_def separator_def)
qed

lemma check_fails:
  assumes "\<not> module_ok flags w"
  shows "check_cue_mod flags (path_Join [modRoot flags, ''cue.mod'']) w =
           (Inl (Errorf (''cue.mod not found in the module path '' @ modRoot flags)),
            emits [EvStat (path_Join [modRoot flags, ''cue.mod''])] w)"
  using assms
  by (cases "lookup (nodes w) (path_Join [modRoot flags, ''cue.mod''])";
      cases "the (lookup (nodes w) (path_Join [modRoot flags, ''cue.mod'']))")
     (simp_all add: module_ok_def check_cue_mod_def os_Stat_def IsDir_def emit_emits)

section \<open>The module check comes first\<close>

text \<open>
  Claim C5.  When the module root holds no \<open>cue.mod\<close> directory (the path is missing
  or is not a directory), the command returns the error
  \<open>cue.mod not found in the module path <root>\<close>, and the only call it has made is
  the \<open>Stat\<close> of that directory: the source file is neither examined, opened nor read.
\<close>
theorem module_check_precedes_load:
  assumes "\<not> module_ok (take_args flags args) w"
  shows "runImportCrdCmd env flags args w =
           (Inl (Errorf (''cue.mod not found in the module path '' @ modRoot (take_args flags args))),
            emits [EvStat (path_Join [modRoot (take_args flags args), ''cue.mod''])] w)"
  using check_fails [OF assms] by (simp add: runImportCrdCmd_def Let_def)

lemma demo_nodes:
  "lookup (nodes demo_world) ''plain/cue.mod'' = None"
  "lookup (nodes demo_world) ''cue.mod'' = Some Dir"
  "lookup (nodes demo_world) ''m/cue.mod'' = Some Dir"
  "lookup (nodes demo_world) ''plain'' = Some Dir"
  by code_simp+

lemma demo_joins:
  "path_Join [''plain'', ''cue.mod''] = ''plain/cue.mod''"
  "path_Join [''m'', ''cue.mod''] = ''m/cue.mod''"
  "path_Join ['''', ''cue.mod''] = ''cue.mod''"
  by code_simp+

theorem module_check_precedes_load_witness:
  "runImportCrdCmd demo_env (importCrdArgs ''crds.yaml'') [''plain''] demo_world =
     (Inl (Errorf ''cue.mod not found in the module path plain''),
      emits [EvStat ''plain/cue.mod''] demo_world)"
  using module_check_precedes_load [of "importCrdArgs ''crds.yaml''" "[''plain'']" demo_world demo_env]
  by (simp add: module_ok_def take_args_def importCrdArgs_def demo_joins demo_nodes)

lemma source_not_regular:
  assumes "lookup (nodes w) (crdFile flags) = Some n" and "\<forall>b. n \<noteq> Regular b"
    and "nodes w' = nodes w"
  shows "load_crd_file flags w' = (Inl (Errorf (''path not found: '' @ crdFile flags)), emits [EvStat (crdFile flags)] w')"
  using assms
  by (cases n) (simp_all add: load_crd_file_def os_Stat_def IsRegular_def emit_emits)

section \<open>A source that is not a regular file\<close>

text \<open>
  Claim C7.  In a module, when the source path exists but is not a regular file (a
  directory, or a special file), the command returns the error
  \<open>path not found: <file>\<close> after two \<open>Stat\<close> calls, without an \<open>Open\<close> or a
  \<open>ReadAll\<close> of the path.
\<close>
theorem irregular_source_not_opened:
  assumes "module_ok (take_args flags args) w"
    and "lookup (nodes w) (crdFile (take_args flags args)) = Some n"
    and "\<forall>b. n \<noteq> Regular b"
  shows "runImportCrdCmd env flags args w =
           (Inl (Errorf (''path not found: '' @ crdFile (take_args flags args))),
            emits [EvStat (path_Join [modRoot (take_args flags args), ''cue.mod'']),
                   EvStat (crdFile (take_args flags args))] w)"
proof -
  let ?fl = "take_args flags args"
  let ?cm = "path_Join [modRoot ?fl, ''cue.mod'']"
  have "check_cue_mod ?fl ?cm w = (Inr (), emits [EvStat ?cm] w)"
    using assms(1)
    by (simp add: module_ok_def check_cue_mod_def os_Stat_def IsDir_def emit_emits)
  moreover have "load_crd_file ?fl (emits [EvStat ?cm] w) =
      (Inl (Errorf (''path not found: '' @ crdFile ?fl)), emits [EvStat (crdFile ?fl)] (emits [EvStat ?cm] w))"
    using assms(2,3) by (intro source_not_regular) simp_all
  ultimately show ?thesis
    by (simp add: runImportCrdCmd_def Let_def import_crds_def)
qed

theorem irregular_source_not_opened_witness:
  "runImportCrdCmd demo_env (importCrdArgs ''plain'') [''m''] demo_world =
     (Inl (Errorf ''path not found: plain''),
      emits [EvStat ''m/cue.mod'', EvStat ''plain''] demo_world)"
  using irregular_source_not_opened
          [of "importCrdArgs ''plain''" "[''m'']" demo_world Dir demo_env]
  by (simp add: module_ok_def take_args_def importCrdArgs_def demo_joins demo_nodes)

section \<open>No positional argument\<close>

text \<open>
  Claim C10.  Without a positional argument the module root stays the empty string,
  the marker directory is the relative path \<open>cue.mod\<close>, and the command goes on
  with the import exactly when that path is a directory of the file system, and
  otherwise returns the module error (with the empty root in its message); the missing
  argument itself is never an error.
\<close>
theorem missing_argument_means_working_directory:
  "take_args (importCrdArgs file) [] = \<lparr>modRoot = [], crdFile = file\<rparr> \<and>
   path_Join [modRoot (take_args (importCrdArgs file) []), ''cue.mod''] = ''cue.mod'' \<and>
   runImportCrdCmd env (importCrdArgs file) [] w =
     (if nodes w ''cue.mod'' = Some Dir
      then import_crds env (importCrdArgs file) ''cue.mod'' (emits [EvStat ''cue.mod''] w)
      else (Inl (Errorf ''cue.mod not found in the module path ''),
            emits [EvStat ''cue.mod''] w))"
proof -
  have j: "path_Join [[], ''cue.mod''] = ''cue.mod''"
    by code_simp
  have c: "path_Clean ''cue.mod'' = ''cue.mod''"
    by code_simp
  have i: "\<not> implicit_dir ''cue.mod''"
    by code_simp
  have l: "lookup (nodes w) ''cue.mod'' = nodes w ''cue.mod''"
    by (simp add: lookup_def node_at_def c i)
  have t: "take_args (importCrdArgs file) [] = importCrdArgs file"
    by (simp add: take_args_def)
  show ?thesis
  proof (cases "nodes w ''cue.mod'' = Some Dir")
    case True
    then have "module_ok (importCrdArgs file) w"
      by (simp add: module_ok_def importCrdArgs_def j l)
    then have "check_cue_mod (importCrdArgs file) ''cue.mod'' w = (Inr (), emits [EvStat ''cue.mod''] w)"
      by (simp add: module_ok_def check_cue_mod_def os_Stat_def IsDir_def emit_emits importCrdArgs_def j)
    with True show ?thesis
      by (simp add: runImportCrdCmd_def t j) (simp add: importCrdArgs_def j Let_def)
  next
    case False
    then have "\<not> module_ok (importCrdArgs file) w"
      by (simp add: module_ok_def importCrdArgs_def j l)
    from check_fails [OF this] False show ?thesis
      by (simp add: runImportCrdCmd_def t) (simp add: importCrdArgs_def j Let_def)
  qed
qed

theorem missing_argument_means_working_directory_witness:
  "path_Join [modRoot (take_args (importCrdArgs ''crds.yaml'') []), ''cue.mod''] = ''cue.mod'' \<and>
   runImportCrdCmd demo_env (importCrdArgs ''crds.yaml'') [] demo_world =
     import_crds demo_env (importCrdArgs ''crds.yaml'') ''cue.mod''
       (emits [EvStat ''cue.mod''] demo_world) \<and>
   fst (runImportCrdCmd demo_env (importCrdArgs ''crds.yaml'') [] demo_world) = Inr ()"
proof -
  have "nodes demo_world ''cue.mod'' = Some Dir"
    by (simp add: demo_world_def)
  moreover have "fst (runImportCrdCmd demo_env (importCrdArgs ''crds.yaml'') [] demo_world) = Inr ()"
    by code_simp
  ultimately show ?thesis
    using missing_argument_means_working_directory [of "''crds.yaml''" demo_env demo_world]
    by (simp add: demo_joins)
qed

lemma extract_no_crds:
  assumes "ssa_ReadObjects env crdData = Inr objects"
    and "\<forall>obj\<in>set objects. \<not> is_crd env obj"
  shows "extract_crds env crdData w = (Inr [], emits [EvReadObjects crdData] w)"
proof -
  from assms(2) have "filter (is_crd env) objects = []"
    by (simp add: filter_empty_conv)
  moreover from assms(2)
  have "\<forall>obj\<in>set objects. is_crd env obj \<longrightarrow> (\<exists>d. yaml_Marshal env obj = Inr d)"
    by simp
  ultimately show ?thesis
    using assms(1)
    by (simp add: extract_crds_def call_ReadObjects_def extract_loop_ok crd_documents_def emit_emits)
qed

section \<open>An input without definitions\<close>

text \<open>
  Claim C6.  In a module, when the source decodes and no object is of kind
  \<open>CustomResourceDefinition\<close>, the extraction returns the empty buffer without an
  error and without a call of the encoder, and the command calls the generator with
  the empty buffer: what the command returns from there on is what the generator and
  the writer make of it.
\<close>
theorem no_crds_reach_generator:
  assumes "module_ok (take_args flags args) w"
    and "source_is (take_args flags args) w crdData"
    and "ssa_ReadObjects env crdData = Inr objects"
    and "\<forall>obj\<in>set objects. GetKind env obj \<noteq> ''CustomResourceDefinition''"
  shows "extract_crds env crdData (emits (load_events (take_args flags args)) w) =
           (Inr [], emits (load_events (take_args flags args) @ [EvReadObjects crdData]) w) \<and>
         runImportCrdCmd env flags args w =
           (case Generate env (header @ crdFile (take_args flags args)) [] of
              Inl err \<Rightarrow>
                (Inl err,
                 emits (load_events (take_args flags args) @
                        [EvReadObjects crdData,
                         EvGenerate (header @ crdFile (take_args flags args)) []]) w)
            | Inr crds \<Rightarrow>
                write_loop env (path_Join [modRoot (take_args flags args), ''cue.mod'']) crds
                  (sorted_keys crds)
                  (emits (load_events (take_args flags args) @
                          [EvReadObjects crdData,
                           EvGenerate (header @ crdFile (take_args flags args)) []]) w))"
proof -
  from assms(4) have "\<forall>obj\<in>set objects. \<not> is_crd env obj"
    by (simp add: is_crd_def)
  from extract_no_crds [OF assms(3) this]
  have e: "extract_crds env crdData w' = (Inr [], emits [EvReadObjects crdData] w')" for w'
    by simp
  show ?thesis
    by (simp add: run_loaded [OF assms(1,2)] e generate_crds_def call_Generate_def emit_emits
        split: sum.splits)
qed

lemma demo_sources:
  "source_is \<lparr>modRoot = r, crdFile = ''rbac.yaml''\<rparr> demo_world ''no definitions''"
  "source_is \<lparr>modRoot = r, crdFile = ''crds.yaml''\<rparr> demo_world ''widgets, gadgets and a config map''"
  "source_is \<lparr>modRoot = r, crdFile = ''two.yaml''\<rparr> demo_world ''two definitions''"
  "source_is \<lparr>modRoot = r, crdFile = ''cyclic.yaml''\<rparr> demo_world ''one definition that does not encode''"
  "source_is \<lparr>modRoot = r, crdFile = ''odd.yaml''\<rparr> demo_world ''one definition that does not translate''"
  "source_is \<lparr>modRoot = r, crdFile = ''torn.yaml''\<rparr> demo_world ''}{''"
  by code_simp+

lemma demo_flags:
  "take_args (importCrdArgs file) [''m''] = \<lparr>modRoot = ''m'', crdFile = file\<rparr>"
  "take_args (importCrdArgs file) [] = \<lparr>modRoot = [], crdFile = file\<rparr>"
  by (simp_all add: take_args_def importCrdArgs_def)

lemma demo_module:
  "module_ok \<lparr>modRoot = [], crdFile = file\<rparr> demo_world"
  "module_ok \<lparr>modRoot = ''m'', crdFile = file\<rparr> demo_world"
  by (simp_all add: module_ok_def demo_joins demo_nodes)

theorem no_crds_reach_generator_witness:
  "runImportCrdCmd demo_env (importCrdArgs ''rbac.yaml'') [] demo_world =
     (Inr (),
      emits [EvStat ''cue.mod'', EvStat ''rbac.yaml'', EvOpen ''rbac.yaml'', EvReadAll ''rbac.yaml'',
             EvReadObjects ''no definitions'', EvGenerate (header @ ''rbac.yaml'') []] demo_world)"
proof -
  have d: "ssa_ReadObjects demo_env ''no definitions'' =
      Inr [(''ConfigMap'', ''settings''), (''customresourcedefinition'', ''lowercase'')]"
    by (simp add: demo_env_def demo_decode_def)
  have k: "\<forall>obj\<in>set [(''ConfigMap'', ''settings''), (''customresourcedefinition'', ''lowercase'')].
      GetKind demo_env obj \<noteq> ''CustomResourceDefinition''"
    by (simp add: demo_env_def)
  have g: "Generate demo_env hdr [] = Inr fmempty" for hdr
    by (simp add: demo_env_def)
  have s: "sorted_keys fmempty = []"
    by (simp add: sorted_keys_def sorted_list_of_fset.rep_eq)
  have m: "module_ok (take_args (importCrdArgs ''rbac.yaml'') []) demo_world"
    by (simp add: demo_flags demo_module)
  have f: "source_is (take_args (importCrdArgs ''rbac.yaml'') []) demo_world ''no definitions''"
    by (simp add: demo_flags demo_sources)
  from no_crds_reach_generator [OF m f d k, THEN conjunct2]
  show ?thesis
    by (simp add: g s load_events_def demo_flags demo_joins)
qed

section \<open>An object that does not encode\<close>

text \<open>
  Claim C9.  In a module, when the source decodes and the encoder fails with \<open>err\<close>
  on an object of kind \<open>CustomResourceDefinition\<close> (every selected object before it
  having encoded), the command returns \<open>err\<close> wrapped as
  \<open>marshaling CRD failed: <err>\<close>, and the failing call of the encoder is its last
  call: no later object is encoded, the generator is not called and nothing is written.
\<close>
theorem marshal_failure_aborts:
  assumes "module_ok (take_args flags args) w"
    and "source_is (take_args flags args) w crdData"
    and "ssa_ReadObjects env crdData = Inr (before @ obj # after)"
    and "\<forall>x\<in>set before. is_crd env x \<longrightarrow> (\<exists>d. yaml_Marshal env x = Inr d)"
    and "GetKind env obj = ''CustomResourceDefinition''"
    and "yaml_Marshal env obj = Inl err"
  shows "runImportCrdCmd env flags args w =
           (Inl (Wrapped ''marshaling CRD failed: '' err),
            emits (load_events (take_args flags args) @ [EvReadObjects crdData] @
                   map EvMarshal (filter (is_crd env) before) @ [EvMarshal obj]) w)"
proof -
  from assms(5) have "is_crd env obj"
    by (simp add: is_crd_def)
  from extract_loop_fails [OF assms(4) this assms(6)] assms(3)
  have "extract_crds env crdData w' =
      (Inl (Wrapped ''marshaling CRD failed: '' err),
       emits ([EvReadObjects crdData] @ map EvMarshal (filter (is_crd env) before) @ [EvMarshal obj]) w')"
    for w'
    by (simp add: extract_crds_def call_ReadObjects_def emit_emits)
  then show ?thesis
    by (simp add: run_loaded [OF assms(1,2)])
qed

theorem marshal_failure_aborts_witness:
  "runImportCrdCmd demo_env (importCrdArgs ''cyclic.yaml'') [''m''] demo_world =
     (Inl (Wrapped ''marshaling CRD failed: '' (Errorf ''json: unsupported value'')),
      emits [EvStat ''m/cue.mod'', EvStat ''cyclic.yaml'', EvOpen ''cyclic.yaml'',
             EvReadAll ''cyclic.yaml'', EvReadObjects ''one definition that does not encode'',
             EvMarshal (''CustomResourceDefinition'', ''widgets.example.com''),
             EvMarshal (''CustomResourceDefinition'', ''cyclic'')] demo_world) \<and>
   Error (Wrapped ''marshaling CRD failed: '' (Errorf ''json: unsupported value'')) =
     ''marshaling CRD failed: json: unsupported value''"
proof -
  have d: "ssa_ReadObjects demo_env ''one definition that does not encode'' =
      Inr ([(''CustomResourceDefinition'', ''widgets.example.com'')] @
           (''CustomResourceDefinition'', ''cyclic'') #
           [(''CustomResourceDefinition'', ''gadgets.example.com'')])"
    by (simp add: demo_env_def demo_decode_def)
  have b: "\<forall>x\<in>set [(''CustomResourceDefinition'', ''widgets.example.com'')].
      is_crd demo_env x \<longrightarrow> (\<exists>d. yaml_Marshal demo_env x = Inr d)"
    by (simp add: demo_env_def)
  have k: "GetKind demo_env (''CustomResourceDefinition'', ''cyclic'') = ''CustomResourceDefinition''"
    by (simp add: demo_env_def)
  have e: "yaml_Marshal demo_env (''CustomResourceDefinition'', ''cyclic'') =
      Inl (Errorf ''json: unsupported value'')"
    by (simp add: demo_env_def)
  have m: "module_ok (take_args (importCrdArgs ''cyclic.yaml'') [''m'']) demo_world"
    by (simp add: demo_flags demo_module)
  have f: "source_is (take_args (importCrdArgs ''cyclic.yaml'') [''m'']) demo_world
      ''one definition that does not encode''"
    by (simp add: demo_flags demo_sources)
  from marshal_failure_aborts [OF m f d b k e]
  show ?thesis
    by (simp add: load_events_def demo_flags demo_joins is_crd_def demo_env_def)
qed

section \<open>Lemmas about the file system and the writer\<close>

declare MkdirAll.simps [simp del]

lemma extends_refl: "extends ns ns"
  by (simp add: extends_def)

lemma extends_trans: "extends a b \<Longrightarrow> extends b c \<Longrightarrow> extends a c"
  unfolding extends_def by metis

lemma lookup_Some_nonempty: "lookup ns name = Some n \<Longrightarrow> name \<noteq> []"
  by (simp add: lookup_def split: if_splits)

lemma WriteFile_Inr:
  assumes "WriteFile ns name d = Inr ns'"
  shows "ns' = ns(path_Clean name \<mapsto> Regular d)"
    and "\<not> implicit_dir (path_Clean name)"
    and "name \<noteq> []"
  using assms
  by (auto simp: WriteFile_def Let_def node_at_def split: if_splits option.splits node.splits)

lemma WriteFile_over_regular:
  assumes "lookup ns name = Some (Regular b)"
  shows "WriteFile ns name d = Inr (ns(path_Clean name \<mapsto> Regular d))"
  using assms by (simp add: WriteFile_def Let_def lookup_def split: if_splits)

lemma Mkdir_Inr:
  assumes "Mkdir ns name = Inr ns'"
  shows "ns' = ns(path_Clean name \<mapsto> Dir)"
    and "ns (path_Clean name) = None"
    and "name \<noteq> []"
  using assms
  by (auto simp: Mkdir_def Let_def node_at_def split: if_splits option.splits node.splits)

lemma Mkdir_extends: "Mkdir ns name = Inr ns' \<Longrightarrow> extends ns ns'"
  using Mkdir_Inr(1,2) [of ns name ns'] by (simp add: extends_def)

lemma MkdirAll_existing: "lookup ns name = Some Dir \<Longrightarrow> MkdirAll ns name = Inr ns"
  by (subst MkdirAll.simps) simp

lemma MkdirAll_cases:
  assumes "MkdirAll ns name = Inr ns'"
  obtains (there) "lookup ns name = Some Dir" and "ns' = ns"
  | (made) ns1 where "lookup ns name = None"
      and "(case mkdir_parent name of Some parent \<Rightarrow> MkdirAll ns parent | None \<Rightarrow> Inr ns) = Inr ns1"
      and "Mkdir ns1 name = Inr ns' \<or> (lookup ns1 name = Some Dir \<and> ns' = ns1)"
proof (cases "lookup ns name")
  case None
  with assms obtain ns1 where
    mid: "(case mkdir_parent name of Some parent \<Rightarrow> MkdirAll ns parent | None \<Rightarrow> Inr ns) = Inr ns1"
    and fin: "(case Mkdir ns1 name of Inr ns'' \<Rightarrow> Inr ns''
               | Inl err \<Rightarrow> if lookup ns1 name = Some Dir then Inr ns1 else Inl err) = Inr ns'"
    by (subst (asm) MkdirAll.simps) (auto split: sum.splits)
  from fin have "Mkdir ns1 name = Inr ns' \<or> (lookup ns1 name = Some Dir \<and> ns' = ns1)"
    by (auto split: sum.splits if_splits)
  with None mid show ?thesis by (rule made)
next
  case (Some n)
  with assms have "n = Dir" and "ns' = ns"
    by (subst (asm) MkdirAll.simps; cases n; simp)+
  with Some show ?thesis by (intro there) simp_all
qed

lemma MkdirAll_extends: "MkdirAll ns name = Inr ns' \<Longrightarrow> extends ns ns'"
proof (induction ns name arbitrary: ns' rule: MkdirAll.induct)
  case (1 ns name)
  from "1.prems" show ?case
  proof (cases rule: MkdirAll_cases)
    case there
    then show ?thesis by (simp add: extends_refl)
  next
    case (made ns1)
    have "extends ns ns1"
    proof (cases "mkdir_parent name")
      case None
      with made(2) show ?thesis by (simp add: extends_refl)
    next
      case (Some parent)
      with made(2) have "MkdirAll ns parent = Inr ns1" by simp
      from "1.IH" [OF made(1) Some this] show ?thesis .
    qed
    moreover from made(3) have "extends ns1 ns'"
      by (auto simp: extends_refl dest: Mkdir_extends)
    ultimately show ?thesis by (rule extends_trans)
  qed
qed

lemma MkdirAll_creates:
  assumes "MkdirAll ns name = Inr ns'"
  shows "lookup ns' name = Some Dir"
  using assms
proof (cases rule: MkdirAll_cases)
  case there
  then show ?thesis by simp
next
  case (made ns1)
  from made(3) show ?thesis
    by (auto simp: lookup_def node_at_def dest: Mkdir_Inr)
qed

lemma nodes_update_emits [simp]: "(emits es w)\<lparr>nodes := ns\<rparr> = emits es (w\<lparr>nodes := ns\<rparr>)"
  by (simp add: emits_def)

lemma os_MkdirAll_Inr:
  "os_MkdirAll name w = (Inr u, w1) \<Longrightarrow>
     \<exists>ns. MkdirAll (nodes w) name = Inr ns \<and> w1 = emits [EvMkdirAll name] (w\<lparr>nodes := ns\<rparr>)"
  by (cases "MkdirAll (nodes w) name") (auto simp: os_MkdirAll_def emit_emits)

lemma os_WriteFile_Inr:
  "os_WriteFile name d w = (Inr u, w1) \<Longrightarrow>
     \<exists>ns. WriteFile (nodes w) name d = Inr ns \<and> w1 = emits [EvWriteFile name d] (w\<lparr>nodes := ns\<rparr>)"
  by (cases "WriteFile (nodes w) name d") (auto simp: os_WriteFile_def emit_emits)

lemma write_loop_step:
  assumes "MkdirAll (nodes w) (dstDir cm k) = Inr ns1"
    and "WriteFile ns1 (dstFile cm k) (index_crds crds k) = Inr ns2"
  shows "write_loop env cm crds (k # keys) w =
           write_loop env cm crds keys (emits (write_events env cm crds k) (w\<lparr>nodes := ns2\<rparr>))"
  using assms
  by (simp add: Let_def os_MkdirAll_def os_WriteFile_def log_Info_def emit_emits write_events_def)

lemma write_loop_Cons_Inr:
  assumes "write_loop env cm crds (k # keys) w = (Inr (), w')"
  obtains ns1 ns2 where "MkdirAll (nodes w) (dstDir cm k) = Inr ns1"
    and "WriteFile ns1 (dstFile cm k) (index_crds crds k) = Inr ns2"
    and "write_loop env cm crds keys (emits (write_events env cm crds k) (w\<lparr>nodes := ns2\<rparr>)) =
           (Inr (), w')"
proof -
  let ?w0 = "log_Info (''generating: '' @ colorizeSubject env k) w"
  obtain r1 w1 where a: "os_MkdirAll (dstDir cm k) ?w0 = (r1, w1)"
    by (cases "os_MkdirAll (dstDir cm k) ?w0")
  with assms obtain u where r1: "r1 = Inr u"
    by (cases r1) (simp_all add: Let_def)
  obtain r2 w2 where b: "os_WriteFile (dstFile cm k) (index_crds crds k) w1 = (r2, w2)"
    by (cases "os_WriteFile (dstFile cm k) (index_crds crds k) w1")
  with assms a r1 obtain u' where r2: "r2 = Inr u'"
    by (cases r2) (simp_all add: Let_def)
  from os_MkdirAll_Inr [OF a [unfolded r1]] obtain ns1 where
    m: "MkdirAll (nodes w) (dstDir cm k) = Inr ns1"
    by (auto simp: log_Info_def emit_emits)
  then have w1: "w1 = emits [EvLogInfo (''generating: '' @ colorizeSubject env k), EvMkdirAll (dstDir cm k)] (w\<lparr>nodes := ns1\<rparr>)"
    using a by (simp add: os_MkdirAll_def log_Info_def emit_emits)
  from os_WriteFile_Inr [OF b [unfolded r2]] w1 obtain ns2 where
    f: "WriteFile ns1 (dstFile cm k) (index_crds crds k) = Inr ns2"
    by auto
  from write_loop_step [OF m f] assms
  have "write_loop env cm crds keys (emits (write_events env cm crds k) (w\<lparr>nodes := ns2\<rparr>)) = (Inr (), w')"
    by simp
  with m f show ?thesis by (rule that)
qed

lemma write_loop_faults:
  "write_loop env cm crds keys w = (Inr (), w') \<Longrightarrow>
     open_fault w' = open_fault w \<and> read_fault w' = read_fault w"
proof (induction keys arbitrary: w)
  case Nil
  then show ?case by simp
next
  case (Cons k keys)
  from Cons.prems obtain ns1 ns2 where
    r: "write_loop env cm crds keys (emits (write_events env cm crds k) (w\<lparr>nodes := ns2\<rparr>)) =
          (Inr (), w')"
    by (rule write_loop_Cons_Inr)
  from Cons.IH [OF r] show ?case by simp
qed

text \<open>A regular file that no later key targets keeps its bytes to the end of the loop.\<close>

lemma write_loop_untouched:
  assumes "write_loop env cm crds keys w = (Inr (), w')"
    and "written cm crds keys q = None"
    and "nodes w q = Some n"
  shows "nodes w' q = Some n"
  using assms
proof (induction keys arbitrary: w)
  case Nil
  then show ?case by simp
next
  case (Cons k keys)
  from Cons.prems(1) obtain ns1 ns2 where
    m: "MkdirAll (nodes w) (dstDir cm k) = Inr ns1" and
    f: "WriteFile ns1 (dstFile cm k) (index_crds crds k) = Inr ns2" and
    r: "write_loop env cm crds keys (emits (write_events env cm crds k) (w\<lparr>nodes := ns2\<rparr>)) =
          (Inr (), w')"
    by (rule write_loop_Cons_Inr)
  from Cons.prems(2) have t: "target cm k \<noteq> q" and rest: "written cm crds keys q = None"
    by (auto simp: map_add_def split: option.splits if_splits)
  from MkdirAll_extends [OF m] Cons.prems(3) have "ns1 q = Some n"
    by (auto simp: extends_def dest: spec [of _ q])
  with WriteFile_Inr(1) [OF f] t have "ns2 q = Some n"
    by (simp add: target_def)
  with Cons.IH [OF r rest] show ?case by simp
qed

text \<open>After the loop, every target holds the bytes of the last key that targets it.\<close>

lemma write_loop_written:
  assumes "write_loop env cm crds keys w = (Inr (), w')"
    and "written cm crds keys q = Some d"
  shows "nodes w' q = Some (Regular d)"
  using assms
proof (induction keys arbitrary: w)
  case Nil
  then show ?case by simp
next
  case (Cons k keys)
  from Cons.prems(1) obtain ns1 ns2 where
    m: "MkdirAll (nodes w) (dstDir cm k) = Inr ns1" and
    f: "WriteFile ns1 (dstFile cm k) (index_crds crds k) = Inr ns2" and
    r: "write_loop env cm crds keys (emits (write_events env cm crds k) (w\<lparr>nodes := ns2\<rparr>)) =
          (Inr (), w')"
    by (rule write_loop_Cons_Inr)
  show ?case
  proof (cases "written cm crds keys q")
    case None
    with Cons.prems(2) have "q = target cm k" and "d = index_crds crds k"
      by (auto simp: map_add_def split: if_splits)
    with WriteFile_Inr(1) [OF f] have "ns2 q = Some (Regular d)"
      by (simp add: target_def)
    with write_loop_untouched [OF r None] show ?thesis by simp
  next
    case (Some d')
    with Cons.prems(2) have "d' = d"
      by (simp add: map_add_def)
    with Cons.IH [OF r] Some show ?thesis by simp
  qed
qed

lemma evolves_refl: "evolves ns ns"
  by (simp add: evolves_def)

lemma evolves_trans: "evolves a b \<Longrightarrow> evolves b c \<Longrightarrow> evolves a c"
  unfolding evolves_def by metis

lemma extends_evolves: "extends ns ns' \<Longrightarrow> evolves ns ns'"
  unfolding extends_def evolves_def by (metis option.distinct(1))

lemma WriteFile_evolves: "WriteFile ns name d = Inr ns' \<Longrightarrow> evolves ns ns'"
  by (auto simp: WriteFile_def Let_def node_at_def evolves_def
      split: if_splits option.splits node.splits)

lemma evolves_lookup_Dir: "evolves ns ns' \<Longrightarrow> lookup ns name = Some Dir \<Longrightarrow> lookup ns' name = Some Dir"
  by (auto simp: evolves_def lookup_def node_at_def split: if_splits)

lemma evolves_lookup_Regular:
  "evolves ns ns' \<Longrightarrow> lookup ns name = Some (Regular b) \<Longrightarrow> \<exists>b'. lookup ns' name = Some (Regular b')"
  by (auto simp: evolves_def lookup_def node_at_def split: if_splits)

lemma write_loop_evolves:
  "write_loop env cm crds keys w = (Inr (), w') \<Longrightarrow> evolves (nodes w) (nodes w')"
proof (induction keys arbitrary: w)
  case Nil
  then show ?case by (simp add: evolves_refl)
next
  case (Cons k keys)
  from Cons.prems obtain ns1 ns2 where
    m: "MkdirAll (nodes w) (dstDir cm k) = Inr ns1" and
    f: "WriteFile ns1 (dstFile cm k) (index_crds crds k) = Inr ns2" and
    r: "write_loop env cm crds keys (emits (write_events env cm crds k) (w\<lparr>nodes := ns2\<rparr>)) =
          (Inr (), w')"
    by (rule write_loop_Cons_Inr)
  from MkdirAll_extends [OF m] have "evolves (nodes w) ns1"
    by (rule extends_evolves)
  moreover from f have "evolves ns1 ns2"
    by (rule WriteFile_evolves)
  moreover from Cons.IH [OF r] have "evolves ns2 (nodes w')"
    by simp
  ultimately show ?case
    by (blast intro: evolves_trans)
qed

lemma settled_evolves: "settled cm keys ns \<Longrightarrow> evolves ns ns' \<Longrightarrow> settled cm keys ns'"
  unfolding settled_def
  by (meson evolves_lookup_Dir evolves_lookup_Regular)

lemma write_loop_settles:
  "write_loop env cm crds keys w = (Inr (), w') \<Longrightarrow> settled cm keys (nodes w')"
proof (induction keys arbitrary: w)
  case Nil
  then show ?case by (simp add: settled_def)
next
  case (Cons k keys)
  from Cons.prems obtain ns1 ns2 where
    m: "MkdirAll (nodes w) (dstDir cm k) = Inr ns1" and
    f: "WriteFile ns1 (dstFile cm k) (index_crds crds k) = Inr ns2" and
    r: "write_loop env cm crds keys (emits (write_events env cm crds k) (w\<lparr>nodes := ns2\<rparr>)) =
          (Inr (), w')"
    by (rule write_loop_Cons_Inr)
  from write_loop_evolves [OF r] have e: "evolves ns2 (nodes w')"
    by simp
  from MkdirAll_creates [OF m] WriteFile_evolves [OF f] have "lookup ns2 (dstDir cm k) = Some Dir"
    by (rule evolves_lookup_Dir [rotated])
  with e have d: "lookup (nodes w') (dstDir cm k) = Some Dir"
    by (rule evolves_lookup_Dir)
  from WriteFile_Inr [OF f] have "lookup ns2 (dstFile cm k) = Some (Regular (index_crds crds k))"
    by (simp add: lookup_def node_at_def)
  with e have "\<exists>b. lookup (nodes w') (dstFile cm k) = Some (Regular b)"
    by (rule evolves_lookup_Regular)
  with d Cons.IH [OF r] show ?case
    by (simp add: settled_def)
qed

text \<open>On a settled file system the loop succeeds and only replaces file contents.\<close>

lemma write_loop_settled:
  assumes "settled cm keys (nodes w)"
  shows "\<exists>w'. write_loop env cm crds keys w = (Inr (), w') \<and>
           nodes w' = (\<lambda>q. case written cm crds keys q of
                              Some d \<Rightarrow> Some (Regular d) | None \<Rightarrow> nodes w q)"
  using assms
proof (induction keys arbitrary: w)
  case Nil
  then show ?case by simp
next
  case (Cons k keys)
  let ?ns2 = "(nodes w)(path_Clean (dstFile cm k) \<mapsto> Regular (index_crds crds k))"
  let ?w2 = "emits (write_events env cm crds k) (w\<lparr>nodes := ?ns2\<rparr>)"
  from Cons.prems have d: "lookup (nodes w) (dstDir cm k) = Some Dir"
    and "\<exists>b. lookup (nodes w) (dstFile cm k) = Some (Regular b)"
    by (simp_all add: settled_def)
  then obtain b where b: "lookup (nodes w) (dstFile cm k) = Some (Regular b)"
    by blast
  have m: "MkdirAll (nodes w) (dstDir cm k) = Inr (nodes w)"
    using d by (rule MkdirAll_existing)
  have f: "WriteFile (nodes w) (dstFile cm k) (index_crds crds k) = Inr ?ns2"
    using b by (rule WriteFile_over_regular)
  have step: "write_loop env cm crds (k # keys) w = write_loop env cm crds keys ?w2"
    using m f by (rule write_loop_step)
  from Cons.prems have "settled cm keys (nodes w)"
    by (simp add: settled_def)
  with WriteFile_evolves [OF f] have "settled cm keys (nodes ?w2)"
    by (simp add: settled_evolves)
  from Cons.IH [OF this] obtain w' where
    w': "write_loop env cm crds keys ?w2 = (Inr (), w')" and
    n: "nodes w' = (\<lambda>q. case written cm crds keys q of
                           Some d \<Rightarrow> Some (Regular d) | None \<Rightarrow> nodes ?w2 q)"
    by blast
  have "nodes w' = (\<lambda>q. case written cm crds (k # keys) q of
                           Some d \<Rightarrow> Some (Regular d) | None \<Rightarrow> nodes w q)"
  proof (rule ext)
    fix q
    show "nodes w' q = (case written cm crds (k # keys) q of
                          Some d \<Rightarrow> Some (Regular d) | None \<Rightarrow> nodes w q)"
      by (cases "written cm crds keys q") (simp_all add: n map_add_def target_def)
  qed
  with step w' show ?case by simp
qed

lemma written_Cons:
  "written cm crds (k # keys) q =
     (case written cm crds keys q of
        Some d \<Rightarrow> Some d
      | None \<Rightarrow> if q = target cm k then Some (index_crds crds k) else None)"
  by (cases "written cm crds keys q") (auto simp: map_add_def)

lemma written_agreeing:
  assumes "\<forall>k'\<in>set keys. target cm k' = q \<longrightarrow> index_crds crds k' = d"
  shows "written cm crds keys q = None \<or> written cm crds keys q = Some d"
  using assms
proof (induction keys)
  case Nil
  then show ?case by simp
next
  case (Cons a keys)
  then have "written cm crds keys q = None \<or> written cm crds keys q = Some d"
    by simp
  moreover from Cons.prems have "target cm a = q \<longrightarrow> index_crds crds a = d"
    by simp
  ultimately show ?case
    unfolding written_Cons by (cases "written cm crds keys q") auto
qed

lemma written_of_key:
  assumes "k \<in> set keys"
    and "\<forall>k'\<in>set keys. target cm k' = target cm k \<longrightarrow> index_crds crds k' = index_crds crds k"
  shows "written cm crds keys (target cm k) = Some (index_crds crds k)"
  using assms
proof (induction keys)
  case Nil
  then show ?case by simp
next
  case (Cons a keys)
  from Cons.prems(2)
  have rest: "\<forall>k'\<in>set keys. target cm k' = target cm k \<longrightarrow> index_crds crds k' = index_crds crds k"
    by simp
  show ?case
  proof (cases "k \<in> set keys")
    case True
    from Cons.IH [OF True rest] show ?thesis
      unfolding written_Cons by simp
  next
    case False
    with Cons.prems(1) have "a = k" by simp
    with written_agreeing [OF rest] show ?thesis
      unfolding written_Cons by (cases "written cm crds keys (target cm k)") auto
  qed
qed

lemma extract_loop_emits: "\<exists>r es. \<forall>w. extract_loop env objects b w = (r, emits es w)"
proof (induction objects arbitrary: b)
  case Nil
  have "\<forall>w. extract_loop env [] b w = (Inr b, emits [] w)" by simp
  then show ?case by blast
next
  case (Cons obj objects)
  show ?case
  proof (cases "is_crd env obj")
    case False
    with Cons [of b] show ?thesis by simp
  next
    case True
    show ?thesis
    proof (cases "yaml_Marshal env obj")
      case (Inl err)
      with True have "\<forall>w. extract_loop env (obj # objects) b w =
          (Inl (Wrapped ''marshaling CRD failed: '' err), emits [EvMarshal obj] w)"
        by (simp add: call_Marshal_def emit_emits)
      then show ?thesis by blast
    next
      case (Inr d)
      from Cons [of "(b @ separator) @ d"] obtain r es where
        "\<forall>w. extract_loop env objects ((b @ separator) @ d) w = (r, emits es w)"
        by blast
      with True Inr have "\<forall>w. extract_loop env (obj # objects) b w = (r, emits (EvMarshal obj # es) w)"
        by (simp add: call_Marshal_def emit_emits)
      then show ?thesis by blast
    qed
  qed
qed

lemma extract_crds_pure:
  "extract_crds env crdData w = (extract_result env crdData, emits (extract_events env crdData) w)"
proof -
  have "\<exists>r es. \<forall>w. extract_crds env crdData w = (r, emits es w)"
  proof (cases "ssa_ReadObjects env crdData")
    case (Inl err)
    then have "\<forall>w. extract_crds env crdData w =
        (Inl (Wrapped ''parsing CRDs failed: '' err), emits [EvReadObjects crdData] w)"
      by (simp add: extract_crds_def call_ReadObjects_def emit_emits)
    then show ?thesis by blast
  next
    case (Inr objects)
    from extract_loop_emits [of env objects "[]"] obtain r es where
      "\<forall>w. extract_loop env objects [] w = (r, emits es w)"
      by blast
    with Inr have "\<forall>w. extract_crds env crdData w = (r, emits (EvReadObjects crdData # es) w)"
      by (simp add: extract_crds_def call_ReadObjects_def emit_emits)
    then show ?thesis by blast
  qed
  then obtain r es where a: "\<And>w. extract_crds env crdData w = (r, emits es w)"
    by blast
  then have "extract_result env crdData = r" and "extract_events env crdData = es"
    by (simp_all add: extract_result_def extract_events_def no_world_def)
  with a show ?thesis by simp
qed

lemma run_generated:
  assumes "module_ok (take_args flags args) w"
    and "source_is (take_args flags args) w crdData"
    and "extract_result env crdData = Inr builder"
    and "Generate env (header @ crdFile (take_args flags args)) builder = Inr crds"
  shows "runImportCrdCmd env flags args w =
     write_loop env (path_Join [modRoot (take_args flags args), ''cue.mod'']) crds (sorted_keys crds)
       (emits (load_events (take_args flags args) @ extract_events env crdData @
               [EvGenerate (header @ crdFile (take_args flags args)) builder]) w)"
  using assms(3,4)
  by (simp add: run_loaded [OF assms(1,2)] extract_crds_pure generate_crds_def call_Generate_def
      emit_emits)

lemma write_loop_trace:
  "write_loop env cm crds keys w = (r, w') \<Longrightarrow>
     (\<exists>n. trace w' = trace w @ take n (concat (map (write_events env cm crds) keys))) \<and>
     (r = Inr () \<longrightarrow> trace w' = trace w @ concat (map (write_events env cm crds) keys))"
proof (induction keys arbitrary: w)
  case Nil
  then show ?case by auto
next
  case (Cons k keys)
  let ?L = "EvLogInfo (''generating: '' @ colorizeSubject env k)"
  let ?M = "EvMkdirAll (dstDir cm k)"
  let ?W = "EvWriteFile (dstFile cm k) (index_crds crds k)"
  let ?rest = "concat (map (write_events env cm crds) keys)"
  have ev: "write_events env cm crds k = [?L, ?M, ?W]"
    by (simp add: write_events_def)
  show ?case
  proof (cases "MkdirAll (nodes w) (dstDir cm k)")
    case (Inl err)
    with Cons.prems have "r = Inl err" and "trace w' = trace w @ [?L, ?M]"
      by (auto simp: Let_def os_MkdirAll_def log_Info_def emit_emits)
    then have "trace w' = trace w @ take 2 (concat (map (write_events env cm crds) (k # keys)))"
      by (simp add: ev)
    with \<open>r = Inl err\<close> show ?thesis by blast
  next
    case m: (Inr ns1)
    show ?thesis
    proof (cases "WriteFile ns1 (dstFile cm k) (index_crds crds k)")
      case (Inl err)
      with m Cons.prems have "r = Inl err" and "trace w' = trace w @ [?L, ?M, ?W]"
        by (auto simp: Let_def os_MkdirAll_def os_WriteFile_def log_Info_def emit_emits)
      then have "trace w' = trace w @ take 3 (concat (map (write_events env cm crds) (k # keys)))"
        by (simp add: ev)
      with \<open>r = Inl err\<close> show ?thesis by blast
    next
      case f: (Inr ns2)
      from write_loop_step [OF m f] Cons.prems
      have "write_loop env cm crds keys (emits (write_events env cm crds k) (w\<lparr>nodes := ns2\<rparr>)) = (r, w')"
        by simp
      from Cons.IH [OF this]
      have "\<exists>n. trace w' = trace w @ [?L, ?M, ?W] @ take n ?rest"
        and a: "r = Inr () \<longrightarrow> trace w' = trace w @ [?L, ?M, ?W] @ ?rest"
        by (simp_all add: ev)
      then obtain n where n: "trace w' = trace w @ [?L, ?M, ?W] @ take n ?rest"
        by blast
      from n have "trace w' = trace w @ take (Suc (Suc (Suc n))) (concat (map (write_events env cm crds) (k # keys)))"
        by (simp add: ev)
      moreover from a have "r = Inr () \<longrightarrow>
          trace w' = trace w @ concat (map (write_events env cm crds) (k # keys))"
        by (simp add: ev)
      ultimately show ?thesis by blast
    qed
  qed
qed

lemma sorted_keys_strict:
  "sorted_wrt (<) (sorted_keys crds)" "set (sorted_keys crds) = fset (fmdom crds)"
  by (simp_all add: sorted_keys_def sorted_list_of_fset.rep_eq)

text \<open>Whatever order \<open>range\<close> yields the keys in, sorting gives the same list.\<close>

lemma sort_any_order:
  assumes "distinct ks" and "set ks = fset (fmdom crds)"
  shows "sort ks = sorted_keys crds"
proof -
  have "sort ks = sorted_list_of_set (set ks)"
    using assms(1) by (simp add: sorted_list_of_set_sort_remdups distinct_remdups_id)
  with assms(2) show ?thesis
    by (simp add: sorted_keys_def sorted_list_of_fset.rep_eq)
qed

lemma demo_generated:
  "extract_result demo_env ''two definitions'' =
     Inr (''---'' @ [newline] @ ''name: widgets.example.com'' @ [newline] @
          ''---'' @ [newline] @ ''name: gadgets.example.com'' @ [newline])"
  "extract_events demo_env ''two definitions'' =
     [EvReadObjects ''two definitions'',
      EvMarshal (''CustomResourceDefinition'', ''widgets.example.com''),
      EvMarshal (''CustomResourceDefinition'', ''gadgets.example.com'')]"
  "Generate demo_env hdr
     (''---'' @ [newline] @ ''name: widgets.example.com'' @ [newline] @
      ''---'' @ [newline] @ ''name: gadgets.example.com'' @ [newline]) = Inr (demo_crds hdr)"
  "sorted_keys (demo_crds hdr) = [''example.com/gadget/v1'', ''example.com/widget/v1'']"
  "index_crds (demo_crds hdr) ''example.com/gadget/v1'' = hdr @ [newline] @ ''#Gadget: {}''"
  "index_crds (demo_crds hdr) ''example.com/widget/v1'' = hdr @ [newline] @ ''#Widget: {}''"
  by code_simp+

lemma demo_keys:
  "fset (fmdom (demo_crds hdr)) = {''example.com/gadget/v1'', ''example.com/widget/v1''}"
  using sorted_keys_strict(2) [of "demo_crds hdr"]
  by (simp add: demo_generated(4))

lemma demo_paths:
  "path_Join [''cue.mod'', ''gen'', ''example.com/gadget/v1''] = ''cue.mod/gen/example.com/gadget/v1''"
  "path_Join [''cue.mod'', ''gen'', ''example.com/widget/v1''] = ''cue.mod/gen/example.com/widget/v1''"
  "path_Join [''cue.mod/gen/example.com/gadget/v1'', ''types_gen.cue''] =
     ''cue.mod/gen/example.com/gadget/v1/types_gen.cue''"
  "path_Join [''cue.mod/gen/example.com/widget/v1'', ''types_gen.cue''] =
     ''cue.mod/gen/example.com/widget/v1/types_gen.cue''"
  "path_Join [''m/cue.mod'', ''gen'', ''example.com/gadget/v1''] = ''m/cue.mod/gen/example.com/gadget/v1''"
  "path_Join [''m/cue.mod'', ''gen'', ''example.com/widget/v1''] = ''m/cue.mod/gen/example.com/widget/v1''"
  "path_Join [''m/cue.mod/gen/example.com/gadget/v1'', ''types_gen.cue''] =
     ''m/cue.mod/gen/example.com/gadget/v1/types_gen.cue''"
  "path_Join [''m/cue.mod/gen/example.com/widget/v1'', ''types_gen.cue''] =
     ''m/cue.mod/gen/example.com/widget/v1/types_gen.cue''"
  "target ''m/cue.mod'' ''example.com/gadget/v1'' = ''m/cue.mod/gen/example.com/gadget/v1/types_gen.cue''"
  "target ''m/cue.mod'' ''example.com/widget/v1'' = ''m/cue.mod/gen/example.com/widget/v1/types_gen.cue''"
  by code_simp+

lemma demo_runs:
  "fst (runImportCrdCmd demo_env (importCrdArgs ''two.yaml'') [] demo_world) = Inr ()"
  "fst (runImportCrdCmd demo_env (importCrdArgs ''two.yaml'') [''m''] demo_world) = Inr ()"
  "lookup (nodes (snd (runImportCrdCmd demo_env (importCrdArgs ''two.yaml'') [''m''] demo_world)))
     ''two.yaml'' = lookup (nodes demo_world) ''two.yaml''"
  "lookup (nodes demo_world) ''cue.mod/gen/example.com'' = None"
  "lookup (nodes demo_world) ''m/cue.mod/gen/example.com/widget/v1/types_gen.cue'' =
     Some (Regular ''stale'')"
  by code_simp+

lemma tree_shaped_add_Dir:
  assumes "tree_shaped ns" and "node_at ns (path_Dir q) = Some Dir"
  shows "tree_shaped (ns(q \<mapsto> Dir))"
  unfolding tree_shaped_def
proof (intro allI impI)
  fix r
  assume r: "(ns(q \<mapsto> Dir)) r \<noteq> None"
  have keep: "node_at (ns(q \<mapsto> Dir)) p = Some Dir" if "node_at ns p = Some Dir" for p
    using that by (simp add: node_at_def split: if_splits)
  show "node_at (ns(q \<mapsto> Dir)) (path_Dir r) = Some Dir"
  proof (cases "r = q")
    case True
    with assms(2) show ?thesis by (simp add: keep)
  next
    case False
    with r have "ns r \<noteq> None" by simp
    with assms(1) have "node_at ns (path_Dir r) = Some Dir"
      by (simp add: tree_shaped_def)
    then show ?thesis by (rule keep)
  qed
qed

lemma tree_shaped_put_Regular:
  assumes "tree_shaped ns"
    and "node_at ns q \<noteq> Some Dir"
    and "ns q \<noteq> None \<or> node_at ns (path_Dir q) = Some Dir"
  shows "tree_shaped (ns(q \<mapsto> Regular d))"
  unfolding tree_shaped_def
proof (intro allI impI)
  fix r
  assume r: "(ns(q \<mapsto> Regular d)) r \<noteq> None"
  have keep: "node_at (ns(q \<mapsto> Regular d)) p = Some Dir" if "node_at ns p = Some Dir" for p
  proof -
    from that assms(2) have "p \<noteq> q" by auto
    with that show ?thesis by (simp add: node_at_def split: if_splits)
  qed
  have "node_at ns (path_Dir r) = Some Dir"
  proof (cases "r = q")
    case True
    with assms(1,3) show ?thesis by (auto simp: tree_shaped_def)
  next
    case False
    with r have "ns r \<noteq> None" by simp
    with assms(1) show ?thesis by (simp add: tree_shaped_def)
  qed
  then show "node_at (ns(q \<mapsto> Regular d)) (path_Dir r) = Some Dir"
    by (rule keep)
qed

lemma Mkdir_tree_shaped:
  assumes "Mkdir ns name = Inr ns'" and "tree_shaped ns"
  shows "tree_shaped ns'"
proof -
  from assms(1) have "ns' = ns(path_Clean name \<mapsto> Dir)"
    and "node_at ns (path_Dir (path_Clean name)) = Some Dir"
    by (auto simp: Mkdir_def Let_def split: if_splits option.splits node.splits)
  with assms(2) show ?thesis
    by (simp add: tree_shaped_add_Dir)
qed

lemma WriteFile_tree_shaped:
  assumes "WriteFile ns name d = Inr ns'" and "tree_shaped ns"
  shows "tree_shaped ns'"
proof -
  from assms(1) have "ns' = ns(path_Clean name \<mapsto> Regular d)"
    and "node_at ns (path_Clean name) \<noteq> Some Dir"
    and "ns (path_Clean name) \<noteq> None \<or> node_at ns (path_Dir (path_Clean name)) = Some Dir"
    by (auto simp: WriteFile_def Let_def node_at_def split: if_splits option.splits node.splits)
  with assms(2) show ?thesis
    by (simp add: tree_shaped_put_Regular)
qed

lemma MkdirAll_tree_shaped:
  "MkdirAll ns name = Inr ns' \<Longrightarrow> tree_shaped ns \<Longrightarrow> tree_shaped ns'"
proof (induction ns name arbitrary: ns' rule: MkdirAll.induct)
  case (1 ns name)
  from "1.prems"(1) show ?case
  proof (cases rule: MkdirAll_cases)
    case there
    with "1.prems"(2) show ?thesis by simp
  next
    case (made ns1)
    have "tree_shaped ns1"
    proof (cases "mkdir_parent name")
      case None
      with made(2) "1.prems"(2) show ?thesis by simp
    next
      case (Some parent)
      with made(2) have "MkdirAll ns parent = Inr ns1" by simp
      from "1.IH" [OF made(1) Some this "1.prems"(2)] show ?thesis .
    qed
    with made(3) show ?thesis
      by (auto dest: Mkdir_tree_shaped)
  qed
qed

lemma write_loop_tree_shaped:
  "write_loop env cm crds keys w = (Inr (), w') \<Longrightarrow> tree_shaped (nodes w) \<Longrightarrow>
     tree_shaped (nodes w')"
proof (induction keys arbitrary: w)
  case Nil
  then show ?case by simp
next
  case (Cons k keys)
  from Cons.prems(1) obtain ns1 ns2 where
    m: "MkdirAll (nodes w) (dstDir cm k) = Inr ns1" and
    f: "WriteFile ns1 (dstFile cm k) (index_crds crds k) = Inr ns2" and
    r: "write_loop env cm crds keys (emits (write_events env cm crds k) (w\<lparr>nodes := ns2\<rparr>)) =
          (Inr (), w')"
    by (rule write_loop_Cons_Inr)
  from MkdirAll_tree_shaped [OF m Cons.prems(2)] have "tree_shaped ns1" .
  from WriteFile_tree_shaped [OF f this] have "tree_shaped ns2" .
  with Cons.IH [OF r] show ?case by simp
qed

text \<open>In a tree, everything above a directory is a directory, up to the implicit ones.\<close>

lemma tree_shaped_ancestors:
  assumes "tree_shaped ns" and "node_at ns q = Some Dir"
    and "\<forall>m<n. \<not> implicit_dir ((path_Dir ^^ m) q)"
  shows "node_at ns ((path_Dir ^^ n) q) = Some Dir"
  using assms(3)
proof (induction n)
  case 0
  with assms(2) show ?case by simp
next
  case (Suc n)
  then have below: "\<forall>m<n. \<not> implicit_dir ((path_Dir ^^ m) q)"
    and here: "\<not> implicit_dir ((path_Dir ^^ n) q)"
    by simp_all
  from Suc.IH [OF below] here have "ns ((path_Dir ^^ n) q) = Some Dir"
    by (simp add: node_at_def)
  with assms(1) show ?case
    by (simp add: tree_shaped_def)
qed

lemma write_loop_key_content:
  assumes "write_loop env cm crds keys w = (Inr (), w')"
    and "k \<in> set keys"
    and "\<forall>k'\<in>set keys. target cm k' = target cm k \<longrightarrow> k' = k"
  shows "lookup (nodes w') (dstFile cm k) = Some (Regular (index_crds crds k))"
proof -
  from assms(3) have "\<forall>k'\<in>set keys. target cm k' = target cm k \<longrightarrow>
      index_crds crds k' = index_crds crds k"
    by auto
  from write_loop_written [OF assms(1) written_of_key [OF assms(2) this]]
  have n: "nodes w' (path_Clean (dstFile cm k)) = Some (Regular (index_crds crds k))"
    by (simp add: target_def)
  from write_loop_settles [OF assms(1)] assms(2)
  obtain b where "lookup (nodes w') (dstFile cm k) = Some (Regular b)"
    by (auto simp: settled_def)
  then have "lookup (nodes w') (dstFile cm k) = nodes w' (path_Clean (dstFile cm k))"
    by (auto simp: lookup_def node_at_def split: if_splits)
  with n show ?thesis by simp
qed

lemma demo_tree: "tree_shaped (nodes demo_world)"
proof -
  let ?names = "[''cue.mod'', ''m'', ''m/cue.mod'', ''m/cue.mod/gen'', ''m/cue.mod/gen/example.com'',
      ''m/cue.mod/gen/example.com/widget'', ''m/cue.mod/gen/example.com/widget/v1'',
      ''m/cue.mod/gen/example.com/widget/v1/types_gen.cue'', ''plain'', ''blocked'',
      ''blocked/cue.mod'', ''blocked/cue.mod/gen'', ''crds.yaml'', ''two.yaml'', ''cyclic.yaml'',
      ''rbac.yaml'', ''odd.yaml'', ''torn.yaml'', ''locked.yaml'', ''flaky.yaml'']"
  have a: "list_all (\<lambda>q. node_at (nodes demo_world) (path_Dir q) = Some Dir) ?names"
    by code_simp
  have b: "q \<in> set ?names" if "nodes demo_world q \<noteq> None" for q
    using that by (simp add: demo_world_def split: if_splits)
  show ?thesis
    unfolding tree_shaped_def using a b by (auto simp: list_all_iff)
qed

lemma demo_before:
  "lookup (nodes demo_world) ''cue.mod/gen'' = None"
  "lookup (nodes demo_world) ''cue.mod/gen/example.com'' = None"
  by code_simp+

lemma demo_cwd_targets:
  "target ''cue.mod'' ''example.com/gadget/v1'' = ''cue.mod/gen/example.com/gadget/v1/types_gen.cue''"
  "target ''cue.mod'' ''example.com/widget/v1'' = ''cue.mod/gen/example.com/widget/v1/types_gen.cue''"
  by code_simp+

lemma demo_climb:
  "path_Clean ''cue.mod/gen/example.com/gadget/v1'' = ''cue.mod/gen/example.com/gadget/v1''"
  "path_Dir ''cue.mod/gen/example.com/gadget/v1'' = ''cue.mod/gen/example.com/gadget''"
  "path_Dir ''cue.mod/gen/example.com/gadget'' = ''cue.mod/gen/example.com''"
  "path_Dir ''cue.mod/gen/example.com'' = ''cue.mod/gen''"
  "\<not> implicit_dir ''cue.mod/gen/example.com/gadget/v1''"
  "\<not> implicit_dir ''cue.mod/gen/example.com/gadget''"
  "\<not> implicit_dir ''cue.mod/gen/example.com''"
  by code_simp+


section \<open>The writer\<close>

text \<open>
  Claim C2.  For the map that the generator returns, the keys that the writer visits
  are the keys of the map in strictly ascending order (byte-wise lexicographic),
  whatever the order in which they were collected from the map.  The
  calls of the writer are, for each key \<open>k\<close> in that order, a log line, \<open>MkdirAll\<close>
  of \<open>Join(Join(root, "cue.mod"), "gen", k)\<close> and \<open>WriteFile\<close> of the bytes under
  \<open>k\<close> to \<open>types_gen.cue\<close> in that directory: the trace of any run is the trace
  up to the generator followed by an initial part of that sequence, and the whole
  sequence when the run succeeds.  When the run succeeds, the file system it leaves
  has, for every key, the directory as a directory and \<open>types_gen.cue\<close> in it as a
  regular file; every file that was written holds the bytes of the last key written to
  it, so the file of a key whose file no other key shares holds exactly the bytes
  generated for that key; and the parents are there: a file system in which every node
  sits in a directory is left as one, so that everything above a key's directory, up to
  the working directory or the root, is a directory.  (That \<open>MkdirAll\<close> succeeds
  on a directory that is there is lemma \<open>MkdirAll_existing\<close>.)
\<close>

theorem writer_visits_sorted_keys:
  assumes "module_ok (take_args flags args) w"
    and "source_is (take_args flags args) w crdData"
    and "extract_result env crdData = Inr builder"
    and "Generate env (header @ crdFile (take_args flags args)) builder = Inr crds"
  shows "(\<forall>ks. distinct ks \<and> set ks = fset (fmdom crds) \<longrightarrow> sort ks = sorted_keys crds) \<and>
    sorted_wrt (<) (sorted_keys crds) \<and> set (sorted_keys crds) = fset (fmdom crds) \<and>
    (\<exists>n. trace (snd (runImportCrdCmd env flags args w)) =
       trace w @ load_events (take_args flags args) @ extract_events env crdData @
       [EvGenerate (header @ crdFile (take_args flags args)) builder] @
       take n (concat (map
         (\<lambda>k. [EvLogInfo (''generating: '' @ colorizeSubject env k),
               EvMkdirAll (path_Join [path_Join [modRoot (take_args flags args), ''cue.mod''], ''gen'', k]),
               EvWriteFile
                 (path_Join [path_Join [path_Join [modRoot (take_args flags args), ''cue.mod''], ''gen'', k],
                             ''types_gen.cue''])
                 (index_crds crds k)])
         (sorted_keys crds)))) \<and>
    (fst (runImportCrdCmd env flags args w) = Inr () \<longrightarrow>
       trace (snd (runImportCrdCmd env flags args w)) =
         trace w @ load_events (take_args flags args) @ extract_events env crdData @
         [EvGenerate (header @ crdFile (take_args flags args)) builder] @
         concat (map
           (\<lambda>k. [EvLogInfo (''generating: '' @ colorizeSubject env k),
                 EvMkdirAll (path_Join [path_Join [modRoot (take_args flags args), ''cue.mod''], ''gen'', k]),
                 EvWriteFile
                   (path_Join [path_Join [path_Join [modRoot (take_args flags args), ''cue.mod''], ''gen'', k],
                               ''types_gen.cue''])
                   (index_crds crds k)])
           (sorted_keys crds)) \<and>
       (\<forall>k\<in>fset (fmdom crds).
          lookup (nodes (snd (runImportCrdCmd env flags args w)))
            (path_Join [path_Join [modRoot (take_args flags args), ''cue.mod''], ''gen'', k]) = Some Dir) \<and>
       (\<forall>k\<in>fset (fmdom crds).
          \<exists>b. lookup (nodes (snd (runImportCrdCmd env flags args w)))
            (path_Join [path_Join [path_Join [modRoot (take_args flags args), ''cue.mod''], ''gen'', k],
                        ''types_gen.cue'']) = Some (Regular b)) \<and>
       (\<forall>q d. written (path_Join [modRoot (take_args flags args), ''cue.mod'']) crds
                (sorted_keys crds) q = Some d \<longrightarrow>
              nodes (snd (runImportCrdCmd env flags args w)) q = Some (Regular d)) \<and>
       (\<forall>k\<in>fset (fmdom crds).
          (\<forall>k'\<in>fset (fmdom crds).
             target (path_Join [modRoot (take_args flags args), ''cue.mod'']) k' =
             target (path_Join [modRoot (take_args flags args), ''cue.mod'']) k \<longrightarrow> k' = k) \<longrightarrow>
          lookup (nodes (snd (runImportCrdCmd env flags args w)))
            (path_Join [path_Join [path_Join [modRoot (take_args flags args), ''cue.mod''], ''gen'', k],
                        ''types_gen.cue'']) =
            Some (Regular (index_crds crds k))) \<and>
       (tree_shaped (nodes w) \<longrightarrow>
          tree_shaped (nodes (snd (runImportCrdCmd env flags args w))) \<and>
          (\<forall>k\<in>fset (fmdom crds). \<forall>n.
             (\<forall>m<n. \<not> implicit_dir ((path_Dir ^^ m) (path_Clean
                (path_Join [path_Join [modRoot (take_args flags args), ''cue.mod''], ''gen'', k])))) \<longrightarrow>
             node_at (nodes (snd (runImportCrdCmd env flags args w)))
               ((path_Dir ^^ n) (path_Clean
                  (path_Join [path_Join [modRoot (take_args flags args), ''cue.mod''], ''gen'', k]))) =
               Some Dir)))"
proof -
  let ?fl = "take_args flags args"
  let ?cm = "path_Join [modRoot ?fl, ''cue.mod'']"
  let ?w0 = "emits (load_events ?fl @ extract_events env crdData @
                    [EvGenerate (header @ crdFile ?fl) builder]) w"
  let ?run = "runImportCrdCmd env flags args w"
  let ?keys = "sorted_keys crds"
  have ev: "write_events env ?cm crds =
      (\<lambda>k. [EvLogInfo (''generating: '' @ colorizeSubject env k),
            EvMkdirAll (path_Join [?cm, ''gen'', k]),
            EvWriteFile (path_Join [path_Join [?cm, ''gen'', k], ''types_gen.cue''])
              (index_crds crds k)])"
    by (rule ext) (simp add: write_events_def dstDir_def dstFile_def)
  have run: "write_loop env ?cm crds ?keys ?w0 = (fst ?run, snd ?run)"
    using run_generated [OF assms] by simp
  from write_loop_trace [OF run]
  have t: "\<exists>n. trace (snd ?run) = trace ?w0 @ take n (concat (map (write_events env ?cm crds) ?keys))"
    and u: "fst ?run = Inr () \<longrightarrow>
      trace (snd ?run) = trace ?w0 @ concat (map (write_events env ?cm crds) ?keys)"
    by blast+
  have after: "(\<forall>k\<in>fset (fmdom crds).
          lookup (nodes (snd ?run)) (path_Join [?cm, ''gen'', k]) = Some Dir) \<and>
       (\<forall>k\<in>fset (fmdom crds).
          \<exists>b. lookup (nodes (snd ?run))
            (path_Join [path_Join [?cm, ''gen'', k], ''types_gen.cue'']) = Some (Regular b)) \<and>
       (\<forall>q d. written ?cm crds ?keys q = Some d \<longrightarrow> nodes (snd ?run) q = Some (Regular d)) \<and>
       (\<forall>k\<in>fset (fmdom crds).
          (\<forall>k'\<in>fset (fmdom crds). target ?cm k' = target ?cm k \<longrightarrow> k' = k) \<longrightarrow>
          lookup (nodes (snd ?run)) (path_Join [path_Join [?cm, ''gen'', k], ''types_gen.cue'']) =
            Some (Regular (index_crds crds k))) \<and>
       (tree_shaped (nodes w) \<longrightarrow>
          tree_shaped (nodes (snd ?run)) \<and>
          (\<forall>k\<in>fset (fmdom crds). \<forall>n.
             (\<forall>m<n. \<not> implicit_dir ((path_Dir ^^ m) (path_Clean (path_Join [?cm, ''gen'', k])))) \<longrightarrow>
             node_at (nodes (snd ?run))
               ((path_Dir ^^ n) (path_Clean (path_Join [?cm, ''gen'', k]))) = Some Dir))"
    if ok: "fst ?run = Inr ()"
  proof -
    from run ok have finished: "write_loop env ?cm crds ?keys ?w0 = (Inr (), snd ?run)"
      by simp
    from write_loop_settles [OF finished]
    have dirs: "\<forall>k\<in>fset (fmdom crds).
        lookup (nodes (snd ?run)) (path_Join [?cm, ''gen'', k]) = Some Dir"
      and files: "\<forall>k\<in>fset (fmdom crds).
        \<exists>b. lookup (nodes (snd ?run))
          (path_Join [path_Join [?cm, ''gen'', k], ''types_gen.cue'']) = Some (Regular b)"
      by (simp_all add: settled_def sorted_keys_strict dstDir_def dstFile_def)
    have last_write: "\<forall>q d. written ?cm crds ?keys q = Some d \<longrightarrow>
        nodes (snd ?run) q = Some (Regular d)"
      using write_loop_written [OF finished] by blast
    have content: "\<forall>k\<in>fset (fmdom crds).
        (\<forall>k'\<in>fset (fmdom crds). target ?cm k' = target ?cm k \<longrightarrow> k' = k) \<longrightarrow>
        lookup (nodes (snd ?run)) (path_Join [path_Join [?cm, ''gen'', k], ''types_gen.cue'']) =
          Some (Regular (index_crds crds k))"
    proof (intro ballI impI)
      fix k
      assume k: "k \<in> fset (fmdom crds)"
        and only: "\<forall>k'\<in>fset (fmdom crds). target ?cm k' = target ?cm k \<longrightarrow> k' = k"
      from k have "k \<in> set ?keys"
        by (simp add: sorted_keys_strict)
      moreover from only have "\<forall>k'\<in>set ?keys. target ?cm k' = target ?cm k \<longrightarrow> k' = k"
        by (simp add: sorted_keys_strict)
      ultimately have "lookup (nodes (snd ?run)) (dstFile ?cm k) = Some (Regular (index_crds crds k))"
        by (rule write_loop_key_content [OF finished])
      then show "lookup (nodes (snd ?run)) (path_Join [path_Join [?cm, ''gen'', k], ''types_gen.cue'']) =
          Some (Regular (index_crds crds k))"
        by (simp add: dstFile_def dstDir_def)
    qed
    have tree: "tree_shaped (nodes (snd ?run)) \<and>
        (\<forall>k\<in>fset (fmdom crds). \<forall>n.
           (\<forall>m<n. \<not> implicit_dir ((path_Dir ^^ m) (path_Clean (path_Join [?cm, ''gen'', k])))) \<longrightarrow>
           node_at (nodes (snd ?run))
             ((path_Dir ^^ n) (path_Clean (path_Join [?cm, ''gen'', k]))) = Some Dir)"
      if start: "tree_shaped (nodes w)"
    proof -
      from write_loop_tree_shaped [OF finished] start have fin: "tree_shaped (nodes (snd ?run))"
        by simp
      have "node_at (nodes (snd ?run))
          ((path_Dir ^^ n) (path_Clean (path_Join [?cm, ''gen'', k]))) = Some Dir"
        if k: "k \<in> fset (fmdom crds)"
          and up: "\<forall>m<n. \<not> implicit_dir ((path_Dir ^^ m) (path_Clean (path_Join [?cm, ''gen'', k])))"
        for k n
      proof -
        from dirs k have "lookup (nodes (snd ?run)) (path_Join [?cm, ''gen'', k]) = Some Dir"
          by blast
        then have "node_at (nodes (snd ?run)) (path_Clean (path_Join [?cm, ''gen'', k])) = Some Dir"
          by (simp add: lookup_def split: if_splits)
        with fin show ?thesis
          using up by (rule tree_shaped_ancestors)
      qed
      with fin show ?thesis by blast
    qed
    from dirs files last_write content tree show ?thesis
      by blast
  qed
  from t u after show ?thesis
    unfolding ev by (simp add: sorted_keys_strict sort_any_order)
qed

theorem writer_visits_sorted_keys_witness:
  "trace (snd (runImportCrdCmd demo_env (importCrdArgs ''two.yaml'') [] demo_world)) =
     [EvStat ''cue.mod'', EvStat ''two.yaml'', EvOpen ''two.yaml'', EvReadAll ''two.yaml'',
      EvReadObjects ''two definitions'',
      EvMarshal (''CustomResourceDefinition'', ''widgets.example.com''),
      EvMarshal (''CustomResourceDefinition'', ''gadgets.example.com''),
      EvGenerate (header @ ''two.yaml'')
        (''---'' @ [newline] @ ''name: widgets.example.com'' @ [newline] @
         ''---'' @ [newline] @ ''name: gadgets.example.com'' @ [newline]),
      EvLogInfo ''generating: example.com/gadget/v1'',
      EvMkdirAll ''cue.mod/gen/example.com/gadget/v1'',
      EvWriteFile ''cue.mod/gen/example.com/gadget/v1/types_gen.cue''
        (header @ ''two.yaml'' @ [newline] @ ''#Gadget: {}''),
      EvLogInfo ''generating: example.com/widget/v1'',
      EvMkdirAll ''cue.mod/gen/example.com/widget/v1'',
      EvWriteFile ''cue.mod/gen/example.com/widget/v1/types_gen.cue''
        (header @ ''two.yaml'' @ [newline] @ ''#Widget: {}'')] \<and>
   lookup (nodes demo_world) ''cue.mod/gen'' = None \<and>
   lookup (nodes demo_world) ''cue.mod/gen/example.com'' = None \<and>
   lookup (nodes (snd (runImportCrdCmd demo_env (importCrdArgs ''two.yaml'') [] demo_world)))
     ''cue.mod/gen/example.com/gadget/v1'' = Some Dir \<and>
   lookup (nodes (snd (runImportCrdCmd demo_env (importCrdArgs ''two.yaml'') [] demo_world)))
     ''cue.mod/gen/example.com/widget/v1'' = Some Dir \<and>
   lookup (nodes (snd (runImportCrdCmd demo_env (importCrdArgs ''two.yaml'') [] demo_world)))
     ''cue.mod/gen/example.com/gadget/v1/types_gen.cue'' =
     Some (Regular (header @ ''two.yaml'' @ [newline] @ ''#Gadget: {}'')) \<and>
   lookup (nodes (snd (runImportCrdCmd demo_env (importCrdArgs ''two.yaml'') [] demo_world)))
     ''cue.mod/gen/example.com/widget/v1/types_gen.cue'' =
     Some (Regular (header @ ''two.yaml'' @ [newline] @ ''#Widget: {}'')) \<and>
   tree_shaped (nodes (snd (runImportCrdCmd demo_env (importCrdArgs ''two.yaml'') [] demo_world))) \<and>
   node_at (nodes (snd (runImportCrdCmd demo_env (importCrdArgs ''two.yaml'') [] demo_world)))
     ''cue.mod/gen/example.com/gadget'' = Some Dir \<and>
   node_at (nodes (snd (runImportCrdCmd demo_env (importCrdArgs ''two.yaml'') [] demo_world)))
     ''cue.mod/gen/example.com'' = Some Dir \<and>
   node_at (nodes (snd (runImportCrdCmd demo_env (importCrdArgs ''two.yaml'') [] demo_world)))
     ''cue.mod/gen'' = Some Dir"
proof -
  let ?fl = "take_args (importCrdArgs ''two.yaml'') []"
  let ?run = "runImportCrdCmd demo_env (importCrdArgs ''two.yaml'') [] demo_world"
  have m: "module_ok ?fl demo_world"
    by (simp add: demo_flags demo_module)
  have s: "source_is ?fl demo_world ''two definitions''"
    by (simp add: demo_flags demo_sources)
  have g: "Generate demo_env (header @ crdFile ?fl)
      (''---'' @ [newline] @ ''name: widgets.example.com'' @ [newline] @
       ''---'' @ [newline] @ ''name: gadgets.example.com'' @ [newline]) =
      Inr (demo_crds (header @ crdFile ?fl))"
    by (rule demo_generated(3))
  have t: "trace demo_world = []"
    by (simp add: demo_world_def)
  have c: "colorizeSubject demo_env k = k" for k
    by (simp add: demo_env_def)
  have k: "''example.com/gadget/v1'' \<in> fset (fmdom (demo_crds hdr))"
    "''example.com/widget/v1'' \<in> fset (fmdom (demo_crds hdr))" for hdr
    by (simp_all add: demo_keys)
  note all = writer_visits_sorted_keys [OF m s demo_generated(1) g]
  note success = all [THEN conjunct2, THEN conjunct2, THEN conjunct2, THEN conjunct2, THEN mp,
      OF demo_runs(1)]
  note dir = success [THEN conjunct2, THEN conjunct1, THEN bspec]
  note content = success [THEN conjunct2, THEN conjunct2, THEN conjunct2, THEN conjunct2,
      THEN conjunct1, THEN bspec, THEN mp]
  note tree = success [THEN conjunct2, THEN conjunct2, THEN conjunct2, THEN conjunct2,
      THEN conjunct2, THEN mp, OF demo_tree]
  note up = tree [THEN conjunct2, THEN bspec, THEN spec, THEN mp, OF k(1)]
  from success [THEN conjunct1]
  have calls: "trace (snd ?run) =
     [EvStat ''cue.mod'', EvStat ''two.yaml'', EvOpen ''two.yaml'', EvReadAll ''two.yaml'',
      EvReadObjects ''two definitions'',
      EvMarshal (''CustomResourceDefinition'', ''widgets.example.com''),
      EvMarshal (''CustomResourceDefinition'', ''gadgets.example.com''),
      EvGenerate (header @ ''two.yaml'')
        (''---'' @ [newline] @ ''name: widgets.example.com'' @ [newline] @
         ''---'' @ [newline] @ ''name: gadgets.example.com'' @ [newline]),
      EvLogInfo ''generating: example.com/gadget/v1'',
      EvMkdirAll ''cue.mod/gen/example.com/gadget/v1'',
      EvWriteFile ''cue.mod/gen/example.com/gadget/v1/types_gen.cue''
        (header @ ''two.yaml'' @ [newline] @ ''#Gadget: {}''),
      EvLogInfo ''generating: example.com/widget/v1'',
      EvMkdirAll ''cue.mod/gen/example.com/widget/v1'',
      EvWriteFile ''cue.mod/gen/example.com/widget/v1/types_gen.cue''
        (header @ ''two.yaml'' @ [newline] @ ''#Widget: {}'')]"
    by (simp add: demo_generated demo_paths demo_flags demo_joins load_events_def t c)
  from dir [OF k(1)] dir [OF k(2)]
  have dirs: "lookup (nodes (snd ?run)) ''cue.mod/gen/example.com/gadget/v1'' = Some Dir"
    "lookup (nodes (snd ?run)) ''cue.mod/gen/example.com/widget/v1'' = Some Dir"
    by (simp_all add: demo_paths demo_flags demo_joins)
  from content [OF k(1)] content [OF k(2)]
  have files: "lookup (nodes (snd ?run)) ''cue.mod/gen/example.com/gadget/v1/types_gen.cue'' =
       Some (Regular (header @ ''two.yaml'' @ [newline] @ ''#Gadget: {}''))"
     "lookup (nodes (snd ?run)) ''cue.mod/gen/example.com/widget/v1/types_gen.cue'' =
       Some (Regular (header @ ''two.yaml'' @ [newline] @ ''#Widget: {}''))"
    by (simp_all add: demo_keys demo_generated demo_paths demo_cwd_targets demo_flags demo_joins)
  from up [of 1] up [of 2] up [of 3]
  have above: "node_at (nodes (snd ?run)) ''cue.mod/gen/example.com/gadget'' = Some Dir"
    "node_at (nodes (snd ?run)) ''cue.mod/gen/example.com'' = Some Dir"
    "node_at (nodes (snd ?run)) ''cue.mod/gen'' = Some Dir"
    by (simp_all add: demo_paths demo_flags demo_joins demo_climb less_Suc_eq
        numeral_2_eq_2 numeral_3_eq_3)
  from calls demo_before dirs files tree [THEN conjunct1] above show ?thesis
    by (intro conjI)
qed

section \<open>Running the command twice\<close>

text \<open>
  Claim C4.  When a run succeeds and has left the source file as it was, a second run
  with the same arguments and collaborators on the resulting file system succeeds as
  well and leaves every node as the first run left it.  After the first run, every
  file that was written holds exactly the bytes of the last key written to it,
  whatever the path held before; so the file of a key whose file no other key shares
  holds exactly the bytes generated for that key.
\<close>

theorem rerun_is_idempotent:
  assumes "module_ok (take_args flags args) w"
    and "source_is (take_args flags args) w crdData"
    and "extract_result env crdData = Inr builder"
    and "Generate env (header @ crdFile (take_args flags args)) builder = Inr crds"
    and "runImportCrdCmd env flags args w = (Inr (), w1)"
    and "lookup (nodes w1) (crdFile (take_args flags args)) =
         lookup (nodes w) (crdFile (take_args flags args))"
  shows "fst (runImportCrdCmd env flags args w1) = Inr () \<and>
         nodes (snd (runImportCrdCmd env flags args w1)) = nodes w1 \<and>
         (\<forall>q d. written (path_Join [modRoot (take_args flags args), ''cue.mod'']) crds
                  (sorted_keys crds) q = Some d \<longrightarrow>
                nodes w1 q = Some (Regular d)) \<and>
         (\<forall>k\<in>fset (fmdom crds).
            (\<forall>k'\<in>fset (fmdom crds).
               target (path_Join [modRoot (take_args flags args), ''cue.mod'']) k' =
               target (path_Join [modRoot (take_args flags args), ''cue.mod'']) k \<longrightarrow> k' = k) \<longrightarrow>
            lookup (nodes w1)
              (path_Join [path_Join [path_Join [modRoot (take_args flags args), ''cue.mod''], ''gen'', k],
                          ''types_gen.cue'']) =
              Some (Regular (index_crds crds k)))"
proof -
  let ?fl = "take_args flags args"
  let ?cm = "path_Join [modRoot ?fl, ''cue.mod'']"
  let ?es = "load_events ?fl @ extract_events env crdData @
             [EvGenerate (header @ crdFile ?fl) builder]"
  let ?keys = "sorted_keys crds"
  have first: "write_loop env ?cm crds ?keys (emits ?es w) = (Inr (), w1)"
    using run_generated [OF assms(1-4)] assms(5) by simp
  from write_loop_evolves [OF first] have ev: "evolves (nodes w) (nodes w1)"
    by simp
  from write_loop_faults [OF first]
  have faults: "open_fault w1 = open_fault w" "read_fault w1 = read_fault w"
    by simp_all
  from write_loop_settles [OF first] have settled: "settled ?cm ?keys (nodes w1)" .
  have m1: "module_ok ?fl w1"
    using assms(1) ev by (simp add: module_ok_def evolves_lookup_Dir)
  have s1: "source_is ?fl w1 crdData"
    using assms(2,6) faults by (simp add: source_is_def)
  have second: "runImportCrdCmd env flags args w1 = write_loop env ?cm crds ?keys (emits ?es w1)"
    by (rule run_generated [OF m1 s1 assms(3,4)])
  from settled have "settled ?cm ?keys (nodes (emits ?es w1))"
    by simp
  from write_loop_settled [OF this, of env crds] obtain w2 where
    w2: "write_loop env ?cm crds ?keys (emits ?es w1) = (Inr (), w2)" and
    n2: "nodes w2 = (\<lambda>q. case written ?cm crds ?keys q of
                          Some d \<Rightarrow> Some (Regular d) | None \<Rightarrow> nodes (emits ?es w1) q)"
    by blast
  have same: "nodes w2 = nodes w1"
  proof (rule ext)
    fix q
    show "nodes w2 q = nodes w1 q"
      using write_loop_written [OF first, of q]
      by (cases "written ?cm crds ?keys q") (simp_all add: n2)
  qed
  have content: "lookup (nodes w1) (path_Join [path_Join [?cm, ''gen'', k], ''types_gen.cue'']) =
      Some (Regular (index_crds crds k))"
    if k: "k \<in> fset (fmdom crds)"
      and u: "\<forall>k'\<in>fset (fmdom crds). target ?cm k' = target ?cm k \<longrightarrow> k' = k"
    for k
  proof -
    from k have in_keys: "k \<in> set ?keys"
      by (simp add: sorted_keys_strict)
    from u have "\<forall>k'\<in>set ?keys. target ?cm k' = target ?cm k \<longrightarrow>
        index_crds crds k' = index_crds crds k"
      by (auto simp: sorted_keys_strict)
    from write_loop_written [OF first written_of_key [OF in_keys this]]
    have n: "nodes w1 (path_Clean (dstFile ?cm k)) = Some (Regular (index_crds crds k))"
      by (simp add: target_def)
    from settled in_keys obtain b where "lookup (nodes w1) (dstFile ?cm k) = Some (Regular b)"
      by (auto simp: settled_def)
    then have "lookup (nodes w1) (dstFile ?cm k) = nodes w1 (path_Clean (dstFile ?cm k))"
      by (auto simp: lookup_def node_at_def split: if_splits)
    with n show ?thesis
      by (simp add: dstFile_def dstDir_def)
  qed
  have last_write: "\<forall>q d. written ?cm crds ?keys q = Some d \<longrightarrow> nodes w1 q = Some (Regular d)"
    using write_loop_written [OF first] by blast
  from second w2 same content last_write show ?thesis
    by simp
qed

theorem rerun_is_idempotent_witness:
  "fst (runImportCrdCmd demo_env (importCrdArgs ''two.yaml'') [''m'']
          (snd (runImportCrdCmd demo_env (importCrdArgs ''two.yaml'') [''m''] demo_world))) = Inr () \<and>
   nodes (snd (runImportCrdCmd demo_env (importCrdArgs ''two.yaml'') [''m'']
          (snd (runImportCrdCmd demo_env (importCrdArgs ''two.yaml'') [''m''] demo_world)))) =
   nodes (snd (runImportCrdCmd demo_env (importCrdArgs ''two.yaml'') [''m''] demo_world)) \<and>
   lookup (nodes demo_world) ''m/cue.mod/gen/example.com/widget/v1/types_gen.cue'' =
     Some (Regular ''stale'') \<and>
   lookup (nodes (snd (runImportCrdCmd demo_env (importCrdArgs ''two.yaml'') [''m''] demo_world)))
     ''m/cue.mod/gen/example.com/widget/v1/types_gen.cue'' =
     Some (Regular (header @ ''two.yaml'' @ [newline] @ ''#Widget: {}''))"
proof -
  let ?fl = "take_args (importCrdArgs ''two.yaml'') [''m'']"
  let ?run = "runImportCrdCmd demo_env (importCrdArgs ''two.yaml'') [''m''] demo_world"
  have m: "module_ok ?fl demo_world"
    by (simp add: demo_flags demo_module)
  have s: "source_is ?fl demo_world ''two definitions''"
    by (simp add: demo_flags demo_sources)
  have g: "Generate demo_env (header @ crdFile ?fl)
      (''---'' @ [newline] @ ''name: widgets.example.com'' @ [newline] @
       ''---'' @ [newline] @ ''name: gadgets.example.com'' @ [newline]) =
      Inr (demo_crds (header @ crdFile ?fl))"
    by (rule demo_generated(3))
  have r: "?run = (Inr (), snd ?run)"
    using demo_runs(2) by (simp add: prod_eq_iff)
  have u: "lookup (nodes (snd ?run)) (crdFile ?fl) = lookup (nodes demo_world) (crdFile ?fl)"
    using demo_runs(3) by (simp add: demo_flags)
  from rerun_is_idempotent [OF m s demo_generated(1) g r u]
  show ?thesis
    by (simp add: demo_keys demo_generated demo_paths demo_flags demo_joins demo_runs)
qed

lemma write_loop_append:
  "write_loop env cm crds (xs @ ys) w =
     (case write_loop env cm crds xs w of
        (Inl err, w') \<Rightarrow> (Inl err, w')
      | (Inr u, w') \<Rightarrow> write_loop env cm crds ys w')"
proof (induction xs arbitrary: w)
  case Nil
  then show ?case by simp
next
  case (Cons k xs)
  show ?case
  proof (cases "MkdirAll (nodes w) (dstDir cm k)")
    case (Inl err)
    then show ?thesis
      by (simp add: Let_def os_MkdirAll_def log_Info_def emit_emits)
  next
    case m: (Inr ns1)
    show ?thesis
    proof (cases "WriteFile ns1 (dstFile cm k) (index_crds crds k)")
      case (Inl err)
      with m show ?thesis
        by (simp add: Let_def os_MkdirAll_def os_WriteFile_def log_Info_def emit_emits)
    next
      case f: (Inr ns2)
      from write_loop_step [OF m f, of env] write_loop_step [OF m f, of env "xs @ ys"] Cons
      show ?thesis by simp
    qed
  qed
qed

lemma write_loop_mkdir_fails:
  assumes "MkdirAll (nodes w) (dstDir cm k) = Inl cause"
  shows "write_loop env cm crds (k # keys) w =
           (Inl cause,
            emits [EvLogInfo (''generating: '' @ colorizeSubject env k), EvMkdirAll (dstDir cm k)] w)"
  using assms by (simp add: Let_def os_MkdirAll_def log_Info_def emit_emits)

lemma write_loop_write_fails:
  assumes "MkdirAll (nodes w) (dstDir cm k) = Inr ns"
    and "WriteFile ns (dstFile cm k) (index_crds crds k) = Inl cause"
  shows "write_loop env cm crds (k # keys) w =
           (Inl cause, emits (write_events env cm crds k) (w\<lparr>nodes := ns\<rparr>))"
  using assms
  by (simp add: Let_def os_MkdirAll_def os_WriteFile_def log_Info_def emit_emits write_events_def)

lemma run_source_irregular:
  assumes "module_ok (take_args flags args) w"
    and "\<forall>b. lookup (nodes w) (crdFile (take_args flags args)) \<noteq> Some (Regular b)"
  shows "runImportCrdCmd env flags args w =
           (Inl (Errorf (''path not found: '' @ crdFile (take_args flags args))),
            emits [EvStat (path_Join [modRoot (take_args flags args), ''cue.mod'']),
                   EvStat (crdFile (take_args flags args))] w)"
proof -
  let ?fl = "take_args flags args"
  let ?cm = "path_Join [modRoot ?fl, ''cue.mod'']"
  have c: "check_cue_mod ?fl ?cm w = (Inr (), emits [EvStat ?cm] w)"
    using assms(1)
    by (simp add: module_ok_def check_cue_mod_def os_Stat_def IsDir_def emit_emits)
  have "load_crd_file ?fl (emits [EvStat ?cm] w) =
      (Inl (Errorf (''path not found: '' @ crdFile ?fl)), emits [EvStat ?cm, EvStat (crdFile ?fl)] w)"
  proof (cases "lookup (nodes w) (crdFile ?fl)")
    case None
    then show ?thesis
      by (simp add: load_crd_file_def os_Stat_def emit_emits)
  next
    case (Some n)
    with assms(2) have "\<forall>b. n \<noteq> Regular b" by simp
    from source_not_regular [OF Some this, of "emits [EvStat ?cm] w"] show ?thesis
      by simp
  qed
  with c show ?thesis
    by (simp add: runImportCrdCmd_def Let_def import_crds_def)
qed

lemma run_open_fails:
  assumes "module_ok (take_args flags args) w"
    and "lookup (nodes w) (crdFile (take_args flags args)) = Some (Regular b)"
    and "open_fault w (path_Clean (crdFile (take_args flags args))) = Some msg"
  shows "runImportCrdCmd env flags args w =
           (Inl (PathError ''open'' (crdFile (take_args flags args)) msg),
            emits [EvStat (path_Join [modRoot (take_args flags args), ''cue.mod'']),
                   EvStat (crdFile (take_args flags args)),
                   EvOpen (crdFile (take_args flags args))] w)"
proof -
  let ?fl = "take_args flags args"
  let ?cm = "path_Join [modRoot ?fl, ''cue.mod'']"
  have c: "check_cue_mod ?fl ?cm w = (Inr (), emits [EvStat ?cm] w)"
    using assms(1)
    by (simp add: module_ok_def check_cue_mod_def os_Stat_def IsDir_def emit_emits)
  have "load_crd_file ?fl (emits [EvStat ?cm] w) =
      (Inl (PathError ''open'' (crdFile ?fl) msg),
       emits [EvStat ?cm, EvStat (crdFile ?fl), EvOpen (crdFile ?fl)] w)"
    using assms(2,3)
    by (simp add: load_crd_file_def os_Stat_def os_Open_def IsRegular_def emit_emits)
  with c show ?thesis
    by (simp add: runImportCrdCmd_def Let_def import_crds_def)
qed

lemma run_read_fails:
  assumes "module_ok (take_args flags args) w"
    and "lookup (nodes w) (crdFile (take_args flags args)) = Some (Regular b)"
    and "open_fault w (path_Clean (crdFile (take_args flags args))) = None"
    and "read_fault w (path_Clean (crdFile (take_args flags args))) = Some msg"
  shows "runImportCrdCmd env flags args w =
           (Inl (PathError ''read'' (crdFile (take_args flags args)) msg),
            emits (load_events (take_args flags args)) w)"
proof -
  let ?fl = "take_args flags args"
  let ?cm = "path_Join [modRoot ?fl, ''cue.mod'']"
  have c: "check_cue_mod ?fl ?cm w = (Inr (), emits [EvStat ?cm] w)"
    using assms(1)
    by (simp add: module_ok_def check_cue_mod_def os_Stat_def IsDir_def emit_emits)
  have "load_crd_file ?fl (emits [EvStat ?cm] w) =
      (Inl (PathError ''read'' (crdFile ?fl) msg), emits (load_events ?fl) w)"
    using assms(2,3,4)
    by (simp add: load_crd_file_def os_Stat_def os_Open_def IsRegular_def emit_emits
        load_events_def)
  with c show ?thesis
    by (simp add: runImportCrdCmd_def Let_def import_crds_def)
qed

lemma run_decode_fails:
  assumes "module_ok (take_args flags args) w"
    and "source_is (take_args flags args) w crdData"
    and "ssa_ReadObjects env crdData = Inl cause"
  shows "runImportCrdCmd env flags args w =
           (Inl (Wrapped ''parsing CRDs failed: '' cause),
            emits (load_events (take_args flags args) @ [EvReadObjects crdData]) w)"
  using assms(3)
  by (simp add: run_loaded [OF assms(1,2)] extract_crds_def call_ReadObjects_def emit_emits)

lemma run_marshal_fails:
  assumes "module_ok (take_args flags args) w"
    and "source_is (take_args flags args) w crdData"
    and "ssa_ReadObjects env crdData = Inr (before @ obj # after)"
    and "\<forall>x\<in>set before. is_crd env x \<longrightarrow> (\<exists>d. yaml_Marshal env x = Inr d)"
    and "is_crd env obj"
    and "yaml_Marshal env obj = Inl cause"
  shows "runImportCrdCmd env flags args w =
           (Inl (Wrapped ''marshaling CRD failed: '' cause),
            emits (load_events (take_args flags args) @ [EvReadObjects crdData] @
                   map EvMarshal (filter (is_crd env) before) @ [EvMarshal obj]) w)"
proof -
  from extract_loop_fails [OF assms(4,5,6)] assms(3)
  have "extract_crds env crdData w' =
      (Inl (Wrapped ''marshaling CRD failed: '' cause),
       emits ([EvReadObjects crdData] @ map EvMarshal (filter (is_crd env) before) @ [EvMarshal obj]) w')"
    for w'
    by (simp add: extract_crds_def call_ReadObjects_def emit_emits)
  then show ?thesis
    by (simp add: run_loaded [OF assms(1,2)])
qed

lemma run_generate_fails:
  assumes "module_ok (take_args flags args) w"
    and "source_is (take_args flags args) w crdData"
    and "extract_result env crdData = Inr builder"
    and "Generate env (header @ crdFile (take_args flags args)) builder = Inl cause"
  shows "runImportCrdCmd env flags args w =
           (Inl cause,
            emits (load_events (take_args flags args) @ extract_events env crdData @
                   [EvGenerate (header @ crdFile (take_args flags args)) builder]) w)"
  using assms(3,4)
  by (simp add: run_loaded [OF assms(1,2)] extract_crds_pure generate_crds_def call_Generate_def
      emit_emits)

lemma demo_failures:
  "ssa_ReadObjects demo_env ''}{'' = Inl (Errorf ''yaml: did not find expected node content'')"
  "extract_result demo_env ''one definition that does not translate'' =
     Inr (''---'' @ [newline] @ ''name: odd.example.com'' @ [newline])"
  "extract_events demo_env ''one definition that does not translate'' =
     [EvReadObjects ''one definition that does not translate'',
      EvMarshal (''CustomResourceDefinition'', ''odd.example.com'')]"
  "Generate demo_env hdr (''---'' @ [newline] @ ''name: odd.example.com'' @ [newline]) =
     Inl (Errorf ''schema of odd.example.com has no type'')"
  "lookup (nodes demo_world) ''locked.yaml'' = Some (Regular ''two definitions'')"
  "lookup (nodes demo_world) ''flaky.yaml'' = Some (Regular ''two definitions'')"
  "open_fault demo_world (path_Clean ''locked.yaml'') = Some ''permission denied''"
  "open_fault demo_world (path_Clean ''flaky.yaml'') = None"
  "read_fault demo_world (path_Clean ''flaky.yaml'') = Some ''input/output error''"
  "module_ok \<lparr>modRoot = ''blocked'', crdFile = file\<rparr> demo_world"
  "dstDir (path_Join [''blocked'', ''cue.mod'']) ''example.com/gadget/v1'' =
     ''blocked/cue.mod/gen/example.com/gadget/v1''"
  "isl (MkdirAll (nodes demo_world) ''blocked/cue.mod/gen/example.com/gadget/v1'')"
  "projl (MkdirAll (nodes demo_world) ''blocked/cue.mod/gen/example.com/gadget/v1'') =
     PathError ''mkdir'' ''blocked/cue.mod/gen'' ''not a directory''"
  by code_simp+

lemma demo_blocked_paths:
  "path_Join [''blocked'', ''cue.mod''] = ''blocked/cue.mod''"
  "dstDir ''blocked/cue.mod'' ''example.com/gadget/v1'' = ''blocked/cue.mod/gen/example.com/gadget/v1''"
  by code_simp+

lemma demo_blocked:
  "MkdirAll (nodes demo_world) ''blocked/cue.mod/gen/example.com/gadget/v1'' =
     Inl (PathError ''mkdir'' ''blocked/cue.mod/gen'' ''not a directory'')"
  using demo_failures(12,13)
  by (cases "MkdirAll (nodes demo_world) ''blocked/cue.mod/gen/example.com/gadget/v1''") simp_all

section \<open>Which error the command returns\<close>

text \<open>
  Claim C8, as amended.  The command stops at the first call that fails; the trace ends
  with that call.  What it returns depends on the stage.  The two checks return a new
  message naming the path and drop the cause.  A failure of the decoder is returned
  wrapped as \<open>parsing CRDs failed: <cause>\<close>, a failure of the encoder wrapped as
  \<open>marshaling CRD failed: <cause>\<close>.  A failure of \<open>Open\<close>, of \<open>ReadAll\<close>, of the
  generator, of \<open>MkdirAll\<close> or of \<open>WriteFile\<close> is returned as it is, with no context
  added.  (The claim as written has every stage wrap its error, the generator's
  included; the counterexample below is a run in which the generator fails and the
  command returns the generator's error itself.)
\<close>

theorem first_error_is_returned:
  assumes "fl = take_args flags args"
    and "cm = path_Join [modRoot fl, ''cue.mod'']"
    and "f = crdFile fl"
    and "hdr = header @ f"
    and "run = runImportCrdCmd env flags args w"
  shows
    "(\<not> module_ok fl w \<longrightarrow>
        run = (Inl (Errorf (''cue.mod not found in the module path '' @ modRoot fl)),
               emits [EvStat cm] w)) \<and>
     (module_ok fl w \<and> (\<forall>b. lookup (nodes w) f \<noteq> Some (Regular b)) \<longrightarrow>
        run = (Inl (Errorf (''path not found: '' @ f)), emits [EvStat cm, EvStat f] w)) \<and>
     (module_ok fl w \<and> lookup (nodes w) f = Some (Regular b) \<and>
      open_fault w (path_Clean f) = Some msg \<longrightarrow>
        run = (Inl (PathError ''open'' f msg), emits [EvStat cm, EvStat f, EvOpen f] w)) \<and>
     (module_ok fl w \<and> lookup (nodes w) f = Some (Regular b) \<and>
      open_fault w (path_Clean f) = None \<and> read_fault w (path_Clean f) = Some msg \<longrightarrow>
        run = (Inl (PathError ''read'' f msg), emits (load_events fl) w)) \<and>
     (module_ok fl w \<and> source_is fl w crdData \<and> ssa_ReadObjects env crdData = Inl cause \<longrightarrow>
        run = (Inl (Wrapped ''parsing CRDs failed: '' cause),
               emits (load_events fl @ [EvReadObjects crdData]) w)) \<and>
     (module_ok fl w \<and> source_is fl w crdData \<and>
      ssa_ReadObjects env crdData = Inr (before @ obj # after) \<and>
      (\<forall>x\<in>set before. is_crd env x \<longrightarrow> (\<exists>d. yaml_Marshal env x = Inr d)) \<and>
      is_crd env obj \<and> yaml_Marshal env obj = Inl cause \<longrightarrow>
        run = (Inl (Wrapped ''marshaling CRD failed: '' cause),
               emits (load_events fl @ [EvReadObjects crdData] @
                      map EvMarshal (filter (is_crd env) before) @ [EvMarshal obj]) w)) \<and>
     (module_ok fl w \<and> source_is fl w crdData \<and> extract_result env crdData = Inr builder \<and>
      Generate env hdr builder = Inl cause \<longrightarrow>
        run = (Inl cause,
               emits (load_events fl @ extract_events env crdData @ [EvGenerate hdr builder]) w)) \<and>
     (module_ok fl w \<and> source_is fl w crdData \<and> extract_result env crdData = Inr builder \<and>
      Generate env hdr builder = Inr crds \<and> sorted_keys crds = done @ k # rest \<and>
      write_loop env cm crds done
        (emits (load_events fl @ extract_events env crdData @ [EvGenerate hdr builder]) w) =
        (Inr (), w1) \<and>
      MkdirAll (nodes w1) (dstDir cm k) = Inl cause \<longrightarrow>
        run = (Inl cause,
               emits [EvLogInfo (''generating: '' @ colorizeSubject env k),
                      EvMkdirAll (dstDir cm k)] w1)) \<and>
     (module_ok fl w \<and> source_is fl w crdData \<and> extract_result env crdData = Inr builder \<and>
      Generate env hdr builder = Inr crds \<and> sorted_keys crds = done @ k # rest \<and>
      write_loop env cm crds done
        (emits (load_events fl @ extract_events env crdData @ [EvGenerate hdr builder]) w) =
        (Inr (), w1) \<and>
      MkdirAll (nodes w1) (dstDir cm k) = Inr ns \<and>
      WriteFile ns (dstFile cm k) (index_crds crds k) = Inl cause \<longrightarrow>
        run = (Inl cause,
               emits [EvLogInfo (''generating: '' @ colorizeSubject env k),
                      EvMkdirAll (dstDir cm k),
                      EvWriteFile (dstFile cm k) (index_crds crds k)] (w1\<lparr>nodes := ns\<rparr>)))"
proof -
  let ?w0 = "emits (load_events fl @ extract_events env crdData @ [EvGenerate hdr builder]) w"
  have writer: "run = write_loop env cm crds (k # rest) w1"
    if "module_ok fl w" "source_is fl w crdData" "extract_result env crdData = Inr builder"
      "Generate env hdr builder = Inr crds" "sorted_keys crds = done @ k # rest"
      "write_loop env cm crds done ?w0 = (Inr (), w1)"
  proof -
    from that(1-4) have "run = write_loop env cm crds (sorted_keys crds) ?w0"
      unfolding assms by (rule run_generated)
    with that(5,6) show ?thesis
      by (simp add: write_loop_append)
  qed
  have 1: "\<not> module_ok fl w \<longrightarrow>
        run = (Inl (Errorf (''cue.mod not found in the module path '' @ modRoot fl)),
               emits [EvStat cm] w)"
    unfolding assms using check_fails [of "take_args flags args" w]
    by (simp add: runImportCrdCmd_def Let_def)
  have 2: "module_ok fl w \<and> (\<forall>b. lookup (nodes w) f \<noteq> Some (Regular b)) \<longrightarrow>
        run = (Inl (Errorf (''path not found: '' @ f)), emits [EvStat cm, EvStat f] w)"
    unfolding assms by (simp add: run_source_irregular)
  have 3: "module_ok fl w \<and> lookup (nodes w) f = Some (Regular b) \<and>
      open_fault w (path_Clean f) = Some msg \<longrightarrow>
        run = (Inl (PathError ''open'' f msg), emits [EvStat cm, EvStat f, EvOpen f] w)"
    unfolding assms by (simp add: run_open_fails)
  have 4: "module_ok fl w \<and> lookup (nodes w) f = Some (Regular b) \<and>
      open_fault w (path_Clean f) = None \<and> read_fault w (path_Clean f) = Some msg \<longrightarrow>
        run = (Inl (PathError ''read'' f msg), emits (load_events fl) w)"
    unfolding assms by (simp add: run_read_fails)
  have 5: "module_ok fl w \<and> source_is fl w crdData \<and> ssa_ReadObjects env crdData = Inl cause \<longrightarrow>
        run = (Inl (Wrapped ''parsing CRDs failed: '' cause),
               emits (load_events fl @ [EvReadObjects crdData]) w)"
    unfolding assms by (simp add: run_decode_fails)
  have 6: "module_ok fl w \<and> source_is fl w crdData \<and>
      ssa_ReadObjects env crdData = Inr (before @ obj # after) \<and>
      (\<forall>x\<in>set before. is_crd env x \<longrightarrow> (\<exists>d. yaml_Marshal env x = Inr d)) \<and>
      is_crd env obj \<and> yaml_Marshal env obj = Inl cause \<longrightarrow>
        run = (Inl (Wrapped ''marshaling CRD failed: '' cause),
               emits (load_events fl @ [EvReadObjects crdData] @
                      map EvMarshal (filter (is_crd env) before) @ [EvMarshal obj]) w)"
    unfolding assms by (intro impI, elim conjE, rule run_marshal_fails)
  have 7: "module_ok fl w \<and> source_is fl w crdData \<and> extract_result env crdData = Inr builder \<and>
      Generate env hdr builder = Inl cause \<longrightarrow>
        run = (Inl cause,
               emits (load_events fl @ extract_events env crdData @ [EvGenerate hdr builder]) w)"
    unfolding assms by (intro impI, elim conjE, rule run_generate_fails)
  have 8: "module_ok fl w \<and> source_is fl w crdData \<and> extract_result env crdData = Inr builder \<and>
      Generate env hdr builder = Inr crds \<and> sorted_keys crds = done @ k # rest \<and>
      write_loop env cm crds done ?w0 = (Inr (), w1) \<and>
      MkdirAll (nodes w1) (dstDir cm k) = Inl cause \<longrightarrow>
        run = (Inl cause,
               emits [EvLogInfo (''generating: '' @ colorizeSubject env k),
                      EvMkdirAll (dstDir cm k)] w1)"
  proof (intro impI, elim conjE)
    assume h: "module_ok fl w" "source_is fl w crdData" "extract_result env crdData = Inr builder"
      "Generate env hdr builder = Inr crds" "sorted_keys crds = done @ k # rest"
      "write_loop env cm crds done ?w0 = (Inr (), w1)"
      and m: "MkdirAll (nodes w1) (dstDir cm k) = Inl cause"
    from writer [OF h] write_loop_mkdir_fails [OF m, of env crds rest]
    show "run = (Inl cause,
               emits [EvLogInfo (''generating: '' @ colorizeSubject env k),
                      EvMkdirAll (dstDir cm k)] w1)"
      by (simp only:)
  qed
  have 9: "module_ok fl w \<and> source_is fl w crdData \<and> extract_result env crdData = Inr builder \<and>
      Generate env hdr builder = Inr crds \<and> sorted_keys crds = done @ k # rest \<and>
      write_loop env cm crds done ?w0 = (Inr (), w1) \<and>
      MkdirAll (nodes w1) (dstDir cm k) = Inr ns \<and>
      WriteFile ns (dstFile cm k) (index_crds crds k) = Inl cause \<longrightarrow>
        run = (Inl cause,
               emits [EvLogInfo (''generating: '' @ colorizeSubject env k),
                      EvMkdirAll (dstDir cm k),
                      EvWriteFile (dstFile cm k) (index_crds crds k)] (w1\<lparr>nodes := ns\<rparr>))"
  proof (intro impI, elim conjE)
    assume h: "module_ok fl w" "source_is fl w crdData" "extract_result env crdData = Inr builder"
      "Generate env hdr builder = Inr crds" "sorted_keys crds = done @ k # rest"
      "write_loop env cm crds done ?w0 = (Inr (), w1)"
      and m: "MkdirAll (nodes w1) (dstDir cm k) = Inr ns"
      and f: "WriteFile ns (dstFile cm k) (index_crds crds k) = Inl cause"
    from writer [OF h] write_loop_write_fails [OF m f, of env rest]
    show "run = (Inl cause,
               emits [EvLogInfo (''generating: '' @ colorizeSubject env k),
                      EvMkdirAll (dstDir cm k),
                      EvWriteFile (dstFile cm k) (index_crds crds k)] (w1\<lparr>nodes := ns\<rparr>))"
      by (simp only: write_events_def)
  qed
  from 1 2 3 4 5 6 7 8 9 show ?thesis
    by (intro conjI)
qed

theorem generator_error_returned_bare_counterexample:
  "extract_result demo_env ''one definition that does not translate'' =
     Inr (''---'' @ [newline] @ ''name: odd.example.com'' @ [newline]) \<and>
   Generate demo_env (header @ ''odd.yaml'')
     (''---'' @ [newline] @ ''name: odd.example.com'' @ [newline]) =
     Inl (Errorf ''schema of odd.example.com has no type'') \<and>
   fst (runImportCrdCmd demo_env (importCrdArgs ''odd.yaml'') [''m''] demo_world) =
     Inl (Errorf ''schema of odd.example.com has no type'') \<and>
   Unwrap (Errorf ''schema of odd.example.com has no type'') = None \<and>
   Error (Errorf ''schema of odd.example.com has no type'') =
     ''schema of odd.example.com has no type''"
  by code_simp

theorem first_error_is_returned_witness:
  "runImportCrdCmd demo_env (importCrdArgs ''torn.yaml'') [''m''] demo_world =
     (Inl (Wrapped ''parsing CRDs failed: '' (Errorf ''yaml: did not find expected node content'')),
      emits [EvStat ''m/cue.mod'', EvStat ''torn.yaml'', EvOpen ''torn.yaml'',
             EvReadAll ''torn.yaml'', EvReadObjects ''}{''] demo_world) \<and>
   runImportCrdCmd demo_env (importCrdArgs ''odd.yaml'') [''m''] demo_world =
     (Inl (Errorf ''schema of odd.example.com has no type''),
      emits [EvStat ''m/cue.mod'', EvStat ''odd.yaml'', EvOpen ''odd.yaml'', EvReadAll ''odd.yaml'',
             EvReadObjects ''one definition that does not translate'',
             EvMarshal (''CustomResourceDefinition'', ''odd.example.com''),
             EvGenerate (header @ ''odd.yaml'')
               (''---'' @ [newline] @ ''name: odd.example.com'' @ [newline])] demo_world) \<and>
   runImportCrdCmd demo_env (importCrdArgs ''locked.yaml'') [''m''] demo_world =
     (Inl (PathError ''open'' ''locked.yaml'' ''permission denied''),
      emits [EvStat ''m/cue.mod'', EvStat ''locked.yaml'', EvOpen ''locked.yaml''] demo_world) \<and>
   runImportCrdCmd demo_env (importCrdArgs ''flaky.yaml'') [''m''] demo_world =
     (Inl (PathError ''read'' ''flaky.yaml'' ''input/output error''),
      emits [EvStat ''m/cue.mod'', EvStat ''flaky.yaml'', EvOpen ''flaky.yaml'',
             EvReadAll ''flaky.yaml''] demo_world) \<and>
   runImportCrdCmd demo_env (importCrdArgs ''two.yaml'') [''blocked''] demo_world =
     (Inl (PathError ''mkdir'' ''blocked/cue.mod/gen'' ''not a directory''),
      emits [EvStat ''blocked/cue.mod'', EvStat ''two.yaml'', EvOpen ''two.yaml'',
             EvReadAll ''two.yaml'', EvReadObjects ''two definitions'',
             EvMarshal (''CustomResourceDefinition'', ''widgets.example.com''),
             EvMarshal (''CustomResourceDefinition'', ''gadgets.example.com''),
             EvGenerate (header @ ''two.yaml'')
               (''---'' @ [newline] @ ''name: widgets.example.com'' @ [newline] @
                ''---'' @ [newline] @ ''name: gadgets.example.com'' @ [newline]),
             EvLogInfo ''generating: example.com/gadget/v1'',
             EvMkdirAll ''blocked/cue.mod/gen/example.com/gadget/v1''] demo_world)"
proof -
  have c: "colorizeSubject demo_env k = k" for k
    by (simp add: demo_env_def)
  have at_decode: "runImportCrdCmd demo_env (importCrdArgs ''torn.yaml'') [''m''] demo_world =
     (Inl (Wrapped ''parsing CRDs failed: '' (Errorf ''yaml: did not find expected node content'')),
      emits [EvStat ''m/cue.mod'', EvStat ''torn.yaml'', EvOpen ''torn.yaml'',
             EvReadAll ''torn.yaml'', EvReadObjects ''}{''] demo_world)"
    using first_error_is_returned
        [where flags = "importCrdArgs ''torn.yaml''" and args = "[''m'']" and w = demo_world
          and env = demo_env and crdData = "''}{''"
          and cause = "Errorf ''yaml: did not find expected node content''",
         OF refl refl refl refl refl,
         THEN conjunct2, THEN conjunct2, THEN conjunct2, THEN conjunct2, THEN conjunct1]
    by (simp add: demo_flags demo_module demo_sources demo_failures demo_joins load_events_def)
  have at_generate: "runImportCrdCmd demo_env (importCrdArgs ''odd.yaml'') [''m''] demo_world =
     (Inl (Errorf ''schema of odd.example.com has no type''),
      emits [EvStat ''m/cue.mod'', EvStat ''odd.yaml'', EvOpen ''odd.yaml'', EvReadAll ''odd.yaml'',
             EvReadObjects ''one definition that does not translate'',
             EvMarshal (''CustomResourceDefinition'', ''odd.example.com''),
             EvGenerate (header @ ''odd.yaml'')
               (''---'' @ [newline] @ ''name: odd.example.com'' @ [newline])] demo_world)"
    using first_error_is_returned
        [where flags = "importCrdArgs ''odd.yaml''" and args = "[''m'']" and w = demo_world
          and env = demo_env and crdData = "''one definition that does not translate''"
          and builder = "''---'' @ [newline] @ ''name: odd.example.com'' @ [newline]"
          and cause = "Errorf ''schema of odd.example.com has no type''",
         OF refl refl refl refl refl,
         THEN conjunct2, THEN conjunct2, THEN conjunct2, THEN conjunct2, THEN conjunct2, THEN conjunct2, THEN conjunct1]
    by (simp add: demo_flags demo_module demo_sources demo_failures demo_failures(4) [simplified]
        demo_joins load_events_def)
  have at_open: "runImportCrdCmd demo_env (importCrdArgs ''locked.yaml'') [''m''] demo_world =
     (Inl (PathError ''open'' ''locked.yaml'' ''permission denied''),
      emits [EvStat ''m/cue.mod'', EvStat ''locked.yaml'', EvOpen ''locked.yaml''] demo_world)"
    using first_error_is_returned
        [where flags = "importCrdArgs ''locked.yaml''" and args = "[''m'']" and w = demo_world
          and env = demo_env and b = "''two definitions''" and msg = "''permission denied''",
         OF refl refl refl refl refl,
         THEN conjunct2, THEN conjunct2, THEN conjunct1]
    by (simp add: demo_flags demo_module demo_failures demo_joins)
  have at_read: "runImportCrdCmd demo_env (importCrdArgs ''flaky.yaml'') [''m''] demo_world =
     (Inl (PathError ''read'' ''flaky.yaml'' ''input/output error''),
      emits [EvStat ''m/cue.mod'', EvStat ''flaky.yaml'', EvOpen ''flaky.yaml'',
             EvReadAll ''flaky.yaml''] demo_world)"
    using first_error_is_returned
        [where flags = "importCrdArgs ''flaky.yaml''" and args = "[''m'']" and w = demo_world
          and env = demo_env and b = "''two definitions''" and msg = "''input/output error''",
         OF refl refl refl refl refl,
         THEN conjunct2, THEN conjunct2, THEN conjunct2, THEN conjunct1]
    by (simp add: demo_flags demo_module demo_failures demo_joins load_events_def)
  have fl: "take_args (importCrdArgs name) [''blocked''] = \<lparr>modRoot = ''blocked'', crdFile = name\<rparr>"
    for name
    by (simp add: take_args_def importCrdArgs_def)
  have at_mkdir: "runImportCrdCmd demo_env (importCrdArgs ''two.yaml'') [''blocked''] demo_world =
     (Inl (PathError ''mkdir'' ''blocked/cue.mod/gen'' ''not a directory''),
      emits [EvStat ''blocked/cue.mod'', EvStat ''two.yaml'', EvOpen ''two.yaml'',
             EvReadAll ''two.yaml'', EvReadObjects ''two definitions'',
             EvMarshal (''CustomResourceDefinition'', ''widgets.example.com''),
             EvMarshal (''CustomResourceDefinition'', ''gadgets.example.com''),
             EvGenerate (header @ ''two.yaml'')
               (''---'' @ [newline] @ ''name: widgets.example.com'' @ [newline] @
                ''---'' @ [newline] @ ''name: gadgets.example.com'' @ [newline]),
             EvLogInfo ''generating: example.com/gadget/v1'',
             EvMkdirAll ''blocked/cue.mod/gen/example.com/gadget/v1''] demo_world)"
    using first_error_is_returned
        [where flags = "importCrdArgs ''two.yaml''" and args = "[''blocked'']" and w = demo_world
          and env = demo_env and crdData = "''two definitions''"
          and builder = "''---'' @ [newline] @ ''name: widgets.example.com'' @ [newline] @
                ''---'' @ [newline] @ ''name: gadgets.example.com'' @ [newline]"
          and crds = "demo_crds (header @ ''two.yaml'')"
          and ?done = "[]" and k = "''example.com/gadget/v1''" and rest = "[''example.com/widget/v1'']"
          and ?w1.0 = "emits (load_events (take_args (importCrdArgs ''two.yaml'') [''blocked'']) @
                        extract_events demo_env ''two definitions'' @
                        [EvGenerate (header @ ''two.yaml'')
                           (''---'' @ [newline] @ ''name: widgets.example.com'' @ [newline] @
                            ''---'' @ [newline] @ ''name: gadgets.example.com'' @ [newline])]) demo_world"
          and cause = "PathError ''mkdir'' ''blocked/cue.mod/gen'' ''not a directory''",
         OF refl refl refl refl refl,
         THEN conjunct2, THEN conjunct2, THEN conjunct2, THEN conjunct2, THEN conjunct2, THEN conjunct2, THEN conjunct2, THEN conjunct1]
    by (simp add: fl demo_sources demo_failures demo_blocked demo_blocked_paths demo_generated
        demo_generated(3) [simplified] load_events_def c)
  from at_decode at_generate at_open at_read at_mkdir show ?thesis
    by (intro conjI)
qed

section \<open>The header of the generated files\<close>

text \<open>
  Claim C3.  The header that the command hands to the generator is the fixed banner
  (the line \<open>// Code generated by timoni. DO NOT EDIT.\<close> and an empty line) followed
  by the line \<open>//timoni:generate timoni import crd -f <file>\<close>.  The claim has that
  line hold the exact invocation that regenerates the file.  It does not: the command
  is registered under \<open>modImportCmd\<close> and its own \<open>Example\<close> invokes it as
  \<open>timoni mod import crd -f crds.yaml\<close>, while for the source file \<open>crds.yaml\<close> the
  header records \<open>timoni import crd -f crds.yaml\<close>.  The theorem evaluates both on
  that input, and shows the header reaching the generator in a run.
\<close>

theorem header_records_another_command:
  "split_lines (header @ ''crds.yaml'') =
     [''// Code generated by timoni. DO NOT EDIT.'', [],
      ''//timoni:generate timoni import crd -f crds.yaml''] \<and>
   recorded_command ''crds.yaml'' = ''timoni import crd -f crds.yaml'' \<and>
   split_lines (Example importCrdCmd) =
     [''  # generate CUE definitions from a local YAML file'',
      ''  timoni mod import crd -f crds.yaml'', []] \<and>
   example_command = ''timoni mod import crd -f crds.yaml'' \<and>
   recorded_command ''crds.yaml'' \<noteq> example_command \<and>
   EvGenerate (header @ ''crds.yaml'')
     (''---'' @ [newline] @ ''name: widgets.example.com'' @ [newline] @
      ''---'' @ [newline] @ ''name: gadgets.example.com'' @ [newline])
     \<in> set (trace (snd (runImportCrdCmd demo_env (importCrdArgs ''crds.yaml'') [] demo_world)))"
  by code_simp

end
